theory Spec2Isabelle
  imports Main "HOL-Library.AList"
begin

section \<open>Data model of \<open>packages/core/src/verify.ts\<close>\<close>

text \<open>
  JavaScript objects used as dictionaries are association lists in insertion order,
  which is the order \<open>Object.keys\<close>, \<open>Object.entries\<close> and \<open>Object.values\<close> iterate in.
  An assignment \<open>obj[k] = v\<close> is \<^const>\<open>AList.update\<close> (overwrite in place, or append a new
  key), and \<open>delete obj[k]\<close> removes the entry. A property read \<open>obj[k]\<close> of an own property
  is \<^const>\<open>map_of\<close>. The read \<open>libraries[libName]\<close> is modelled in full: it falls back to
  \<open>Object.prototype\<close> when \<open>libName\<close> is not an own property. The keys of \<open>sources\<close> and of
  \<open>sourceToLibraryToAddress\<close> are paths of source files: the model reads and writes them
  as own properties, so it covers source paths that are not names of members of
  \<open>Object.prototype\<close>, and library names other than \<open>__proto__\<close>, whose assignment would
  add no entry.
\<close>

datatype error =
    UNINITIALIZED_DEPLOYMENT string
  | UNSUPPORTED_CHAIN int
  | NO_CONTRACTS_DEPLOYED string
  | ASSERTION_ERROR string
  | TypeError

record ChainConfig =
  chainId :: int
  chainName :: string
  endpoint :: string

text \<open>
  What a property read of a plain object with string values can give: a string, or, for a
  name that is not an own property, the member of \<open>Object.prototype\<close> of that name (a
  function, or for \<open>__proto__\<close> the prototype object itself).
\<close>

datatype jsValue = JsString string | ObjectPrototypeMember string

definition objectPrototypeNames :: "string list" where
  "objectPrototypeNames =
     [''constructor'', ''__defineGetter__'', ''__defineSetter__'', ''hasOwnProperty'',
      ''__lookupGetter__'', ''__lookupSetter__'', ''isPrototypeOf'', ''propertyIsEnumerable'',
      ''toString'', ''valueOf'', ''__proto__'', ''toLocaleString'']"

text \<open>\<open>obj[k]\<close> for a plain object \<open>obj\<close> with string values; \<open>None\<close> is \<open>undefined\<close>.\<close>

definition getProperty :: "(string \<times> string) list \<Rightarrow> string \<Rightarrow> jsValue option" where
  "getProperty obj k =
     (case map_of obj k of
        Some v \<Rightarrow> Some (JsString v)
      | None \<Rightarrow> if k \<in> set objectPrototypeNames then Some (ObjectPrototypeMember k) else None)"

type_synonym SourceToLibraryToAddress = "(string \<times> (string \<times> jsValue) list) list"

record Source =
  content :: string

record Settings =
  libraries :: "SourceToLibraryToAddress option"
  otherSettings :: string

record CompilerInput =
  language :: string
  sources :: "(string \<times> Source) list"
  settings :: Settings

record BuildInfo =
  solcLongVersion :: string
  input :: CompilerInput

record Artifact =
  sourceName :: string
  linkReferences :: "(string \<times> (string \<times> (nat \<times> nat) list) list) list"
  abi :: string

datatype ExecutionStatus = STARTED | TIMEOUT | SUCCESS | HELD | FAILED

datatype ExecutionResult =
    SUCCESS_RESULT string
  | OTHER_RESULT string

record DeploymentExecutionState =
  exId :: string
  status :: ExecutionStatus
  artifactId :: string
  contractName :: string
  constructorArgs :: "string list"
  exLibraries :: "(string \<times> string) list"
  result :: "ExecutionResult option"

datatype ExecutionState =
    DEPLOYMENT_EXECUTION_STATE DeploymentExecutionState
  | OTHER_EXECUTION_STATE string ExecutionStatus

record DeploymentState =
  stateChainId :: int
  executionStates :: "ExecutionState list"

record VerifyInfo =
  address :: string
  compilerVersion :: string
  sourceCode :: CompilerInput
  name :: string
  args :: string

type_synonym VerifyResult = "ChainConfig \<times> VerifyInfo"

text \<open>
  \<open>BuildInfo\<close> objects live in a store, since \<open>prepareInputBasedOn\<close> and the pruning loop
  of \<open>convertExStateToVerifyInfo\<close> write to the object that \<open>readBuildInfo\<close> returned. A
  reference is an address of the store. The objects below a \<open>BuildInfo\<close> (its \<open>input\<close>,
  \<open>sources\<close> and \<open>settings\<close>) belong to it alone and are part of its cell.
\<close>

record heap =
  objects :: "nat \<Rightarrow> BuildInfo"
  allocated :: nat

text \<open>
  The class \<open>FileDeploymentLoader\<close> is not part of \<open>verify.ts\<close>. A loader is given by the
  two methods used here; \<open>readBuildInfo\<close> returns a reference into the store.
\<close>

record FileDeploymentLoader =
  readBuildInfo :: "string \<Rightarrow> heap \<Rightarrow> nat \<times> heap"
  loadArtifact :: "string \<Rightarrow> Artifact"

text \<open>
  Modelled from the spec: the methods \<open>readBuildInfo\<close> and \<open>loadArtifact\<close> of
  \<open>FileDeploymentLoader\<close> (\<open>internal/deployment-loader/file-deployment-loader\<close>), which is
  not part of \<open>verify.ts\<close>. Build info and artifact are read from the deployment's storage
  for the record at hand, as snapshots loaded once per record: every call of
  \<open>readBuildInfo\<close> returns a new object that holds the stored build info of the artifact.
  The two arguments are the stored build infos and artifacts, by artifact id.
\<close>

definition fileDeploymentLoader ::
  "(string \<Rightarrow> BuildInfo) \<Rightarrow> (string \<Rightarrow> Artifact) \<Rightarrow> FileDeploymentLoader" where
  "fileDeploymentLoader buildInfoFiles artifactFiles =
     \<lparr>readBuildInfo = (\<lambda>aid h. (allocated h,
         h\<lparr>objects := (objects h)(allocated h := buildInfoFiles aid),
           allocated := Suc (allocated h)\<rparr>)),
      loadArtifact = artifactFiles\<rparr>"

text \<open>
  What \<open>verify.ts\<close> imports from other modules, as parameters: \<open>analyze\<close> of
  \<open>@nomicfoundation/solidity-analyzer\<close> (its \<open>imports\<close> field), \<open>path.dirname\<close> and
  \<open>path.join\<close> of Node, \<open>encodeDeploymentArguments\<close>, the table \<open>builtinChains\<close>, the
  constructor of \<open>FileDeploymentLoader\<close> and \<open>loadDeploymentState\<close> (\<open>None\<close> is
  \<open>undefined\<close>).
\<close>

record externals =
  analyze :: "string \<Rightarrow> string list"
  path_dirname :: "string \<Rightarrow> string"
  path_join :: "string \<Rightarrow> string \<Rightarrow> string"
  encodeDeploymentArguments :: "Artifact \<Rightarrow> string list \<Rightarrow> string"
  builtinChains :: "ChainConfig list"
  newFileDeploymentLoader :: "string \<Rightarrow> FileDeploymentLoader"
  loadDeploymentState :: "FileDeploymentLoader \<Rightarrow> DeploymentState option"

section \<open>Chain configuration\<close>

text \<open>
  \<open>resolveChainConfig\<close>: the first entry of \<open>[...customChains, ...builtinChains]\<close> whose
  \<open>chainId\<close> is the deployment's.
\<close>

definition resolveChainConfig ::
  "externals \<Rightarrow> DeploymentState \<Rightarrow> ChainConfig list \<Rightarrow> error + ChainConfig" where
  "resolveChainConfig ext deploymentState customChains =
     (case find (\<lambda>c. chainId c = stateChainId deploymentState)
             (customChains @ builtinChains ext) of
        None \<Rightarrow> Inl (UNSUPPORTED_CHAIN (stateChainId deploymentState))
      | Some chainConfig \<Rightarrow> Inr chainConfig)"

section \<open>Library addresses\<close>

text \<open>
  The inner loop of \<open>resolveLibraryInfoForArtifact\<close>, over the library names of one
  source's link references. \<open>acc\<close> is \<open>sourceToLibraryToAddress\<close>. The failed
  \<open>assertIgnitionInvariant\<close> is the error \<^const>\<open>ASSERTION_ERROR\<close> with its message.
\<close>

fun resolveLibraryInfo_libs ::
  "string \<Rightarrow> (string \<times> (nat \<times> nat) list) list \<Rightarrow> (string \<times> string) list
    \<Rightarrow> SourceToLibraryToAddress \<Rightarrow> error + SourceToLibraryToAddress" where
  "resolveLibraryInfo_libs srcName [] libs acc = Inr acc"
| "resolveLibraryInfo_libs srcName ((libName, offsets) # rest) libs acc =
     (let acc1 = (case map_of acc srcName of
                    None \<Rightarrow> AList.update srcName [] acc
                  | Some obj \<Rightarrow> acc)
      in case getProperty libs libName of
           None \<Rightarrow> Inl (ASSERTION_ERROR (''Could not find address for library '' @ libName))
         | Some libraryAddress \<Rightarrow>
             resolveLibraryInfo_libs srcName rest libs
               (AList.update srcName
                  (AList.update libName libraryAddress
                     (case map_of acc1 srcName of None \<Rightarrow> [] | Some obj \<Rightarrow> obj))
                  acc1))"

text \<open>The outer loop, over the entries of \<open>artifact.linkReferences\<close>.\<close>

fun resolveLibraryInfo_sources ::
  "(string \<times> (string \<times> (nat \<times> nat) list) list) list \<Rightarrow> (string \<times> string) list
    \<Rightarrow> SourceToLibraryToAddress \<Rightarrow> error + SourceToLibraryToAddress" where
  "resolveLibraryInfo_sources [] libs acc = Inr acc"
| "resolveLibraryInfo_sources ((srcName, refObj) # rest) libs acc =
     (case resolveLibraryInfo_libs srcName refObj libs acc of
        Inl e \<Rightarrow> Inl e
      | Inr acc' \<Rightarrow> resolveLibraryInfo_sources rest libs acc')"

text \<open>\<open>resolveLibraryInfoForArtifact\<close>; \<open>null\<close> is \<open>None\<close>.\<close>

definition resolveLibraryInfoForArtifact ::
  "Artifact \<Rightarrow> (string \<times> string) list \<Rightarrow> error + SourceToLibraryToAddress option" where
  "resolveLibraryInfoForArtifact artifact libs =
     (case resolveLibraryInfo_sources (linkReferences artifact) libs [] of
        Inl e \<Rightarrow> Inl e
      | Inr sourceToLibraryToAddress \<Rightarrow>
          if length sourceToLibraryToAddress = 0 then Inr None
          else Inr (Some sourceToLibraryToAddress))"

text \<open>
  \<open>prepareInputBasedOn\<close> works on the \<open>buildInfo\<close> object in place. The model returns the
  function's value together with the state of the \<open>buildInfo\<close> object after the call; the
  value is \<open>buildInfo.input\<close> itself, not a copy, in both branches.
\<close>

definition prepareInputBasedOn ::
  "BuildInfo \<Rightarrow> Artifact \<Rightarrow> (string \<times> string) list \<Rightarrow> error + (CompilerInput \<times> BuildInfo)" where
  "prepareInputBasedOn buildInfo artifact libs =
     (case resolveLibraryInfoForArtifact artifact libs of
        Inl e \<Rightarrow> Inl e
      | Inr None \<Rightarrow> Inr (input buildInfo, buildInfo)
      | Inr (Some sourceToLibraryAddresses) \<Rightarrow>
          (let buildInfo' = buildInfo\<lparr>input := (input buildInfo)\<lparr>settings :=
                 (settings (input buildInfo))\<lparr>libraries := Some sourceToLibraryAddresses\<rparr>\<rparr>\<rparr>
           in Inr (input buildInfo', buildInfo')))"

text \<open>
  Reading the result of \<open>resolveLibraryInfoForArtifact\<close>: the value stored for a library
  name under a source path, and whether every library named by the link references has an
  address of its own in \<open>libraries\<close>.
\<close>

definition libraryAddressAt ::
  "SourceToLibraryToAddress option \<Rightarrow> string \<Rightarrow> string \<Rightarrow> jsValue option" where
  "libraryAddressAt r s l =
     (case r of
        None \<Rightarrow> None
      | Some m \<Rightarrow> (case map_of m s of None \<Rightarrow> None | Some obj \<Rightarrow> map_of obj l))"

definition librariesComplete :: "Artifact \<Rightarrow> (string \<times> string) list \<Rightarrow> bool" where
  "librariesComplete artifact libs =
     list_all (\<lambda>(s, refs). list_all (\<lambda>(l, offsets). map_of libs l \<noteq> None) refs)
       (linkReferences artifact)"

section \<open>Import closure\<close>

text \<open>
  The test \<open>/^\.\.?[\/|\\]/.test(i)\<close>: a dot, an optional second dot, then one character of
  the class \<open>[\/|\\]\<close>, whose members are the slash, the vertical bar and the backslash.
\<close>

definition separatorClass :: "char \<Rightarrow> bool" where
  "separatorClass c = (c = CHR ''/'' \<or> c = CHR ''|'' \<or> c = CHR 0x5C)"

fun isRelativeImport :: "string \<Rightarrow> bool" where
  "isRelativeImport (d # c # cs) =
     (d = CHR ''.'' \<and>
      (separatorClass c \<or> (c = CHR ''.'' \<and> (case cs of [] \<Rightarrow> False | e # es \<Rightarrow> separatorClass e))))"
| "isRelativeImport cs = False"

text \<open>\<open>s.replaceAll("\\", "/")\<close>.\<close>

definition backslashesToSlashes :: "string \<Rightarrow> string" where
  "backslashesToSlashes s = map (\<lambda>c. if c = CHR 0x5C then CHR ''/'' else c) s"

text \<open>The callback of \<open>imports.map\<close> in \<open>getImportSourceNames\<close>.\<close>

definition resolveImport :: "externals \<Rightarrow> string \<Rightarrow> string \<Rightarrow> string" where
  "resolveImport ext srcName i =
     (if isRelativeImport i
      then backslashesToSlashes (path_join ext (path_dirname ext srcName) i)
      else i)"

text \<open>
  \<open>importSources.flatMap(f)\<close> for a callback that may throw or not return: the calls run
  in list order and the first one that fails decides. \<open>None\<close> is a call that does not
  return, \<open>Some (Inl e)\<close> a thrown error.
\<close>

primrec flatMapM ::
  "('a \<Rightarrow> (error + 'b list) option) \<Rightarrow> 'a list \<Rightarrow> (error + 'b list) option" where
  "flatMapM f [] = Some (Inr [])"
| "flatMapM f (x # xs) =
     Option.bind (f x) (\<lambda>r. case r of
        Inl e \<Rightarrow> Some (Inl e)
      | Inr ys \<Rightarrow> Option.bind (flatMapM f xs) (\<lambda>r'. case r' of
            Inl e \<Rightarrow> Some (Inl e)
          | Inr zs \<Rightarrow> Some (Inr (ys @ zs))))"

lemma flatMapM_mono [partial_function_mono]:
  assumes "\<And>x. mono_option (\<lambda>f. B f x)"
  shows "mono_option (\<lambda>f. flatMapM (B f) xs)"
proof (induction xs)
  case Nil
  show ?case by (simp add: option.const_mono)
next
  case (Cons x xs)
  have "mono_option (\<lambda>f. case y of
            Inl e \<Rightarrow> Some (Inl e)
          | Inr ys \<Rightarrow> Option.bind (flatMapM (B f) xs) (\<lambda>r'. case r' of
                Inl e \<Rightarrow> Some (Inl e)
              | Inr zs \<Rightarrow> Some (Inr (ys @ zs))))" for y
    by (cases y) (auto intro!: bind_mono Cons option.const_mono)
  then show ?case
    unfolding flatMapM.simps by (intro bind_mono assms)
qed

text \<open>
  \<open>getImportSourceNames\<close>. Reading \<open>.content\<close> of a source name that is not a key of
  \<open>buildInfo.input.sources\<close> throws a \<open>TypeError\<close>. The recursion has no bound of its own,
  so the function is partial: \<open>None\<close> is a call that never returns (in Node the call stack
  runs out).
\<close>

partial_function (option) getImportSourceNames ::
  "externals \<Rightarrow> string \<Rightarrow> BuildInfo \<Rightarrow> (error + string list) option" where
  "getImportSourceNames ext srcName buildInfo =
     (case map_of (sources (input buildInfo)) srcName of
        None \<Rightarrow> Some (Inl TypeError)
      | Some src \<Rightarrow>
          (let importSources = map (resolveImport ext srcName) (analyze ext (content src))
           in Option.bind (flatMapM (\<lambda>i. getImportSourceNames ext i buildInfo) importSources)
                (\<lambda>r. case r of
                   Inl e \<Rightarrow> Some (Inl e)
                 | Inr rest \<Rightarrow> Some (Inr (importSources @ rest)))))"

text \<open>
  The import graph of a build: an edge from a source name that is a key of
  \<open>buildInfo.input.sources\<close> to each of its resolved imports. It is the relation the
  theorems about \<open>getImportSourceNames\<close> are stated over.
\<close>

definition importEdges :: "externals \<Rightarrow> BuildInfo \<Rightarrow> (string \<times> string) set" where
  "importEdges ext buildInfo =
     {(s, t). \<exists>src. map_of (sources (input buildInfo)) s = Some src
        \<and> t \<in> set (map (resolveImport ext s) (analyze ext (content src)))}"

subsection \<open>Node's \<open>path\<close> module on a POSIX platform\<close>

text \<open>
  \<open>path.dirname\<close> and \<open>path.join\<close> are Node's, not the repository's. This is
  \<open>path.posix\<close>, where the slash is the only separator: \<open>normalizeString\<close> drops empty
  and \<open>.\<close> segments, lets \<open>..\<close> remove the segment before it, and keeps a leading \<open>..\<close>
  of a relative path; \<open>dirname\<close> scans from the end for the last slash that follows a
  character other than a slash.
\<close>

fun splitSlash :: "string \<Rightarrow> string list" where
  "splitSlash [] = [[]]"
| "splitSlash (c # cs) =
     (if c = CHR ''/'' then [] # splitSlash cs
      else (case splitSlash cs of [] \<Rightarrow> [[c]] | seg # segs \<Rightarrow> (c # seg) # segs))"

fun joinSlash :: "string list \<Rightarrow> string" where
  "joinSlash [] = []"
| "joinSlash [seg] = seg"
| "joinSlash (seg # segs) = seg @ ''/'' @ joinSlash segs"

definition normalizeSegment :: "bool \<Rightarrow> string list \<Rightarrow> string \<Rightarrow> string list" where
  "normalizeSegment allowAboveRoot res seg =
     (if seg = [] \<or> seg = ''.'' then res
      else if seg = ''..'' then
        (if res \<noteq> [] \<and> last res \<noteq> ''..'' then butlast res
         else if allowAboveRoot then res @ [''..'']
         else res)
      else res @ [seg])"

definition normalizeString :: "string \<Rightarrow> bool \<Rightarrow> string" where
  "normalizeString p allowAboveRoot =
     joinSlash (foldl (normalizeSegment allowAboveRoot) [] (splitSlash p))"

definition posix_normalize :: "string \<Rightarrow> string" where
  "posix_normalize p =
     (if p = [] then ''.''
      else
        (let isAbsolute = (hd p = CHR ''/'');
             trailingSeparator = (last p = CHR ''/'');
             q = normalizeString p (\<not> isAbsolute)
         in if q = [] then (if isAbsolute then ''/'' else if trailingSeparator then ''./'' else ''.'')
            else (let q' = (if trailingSeparator then q @ ''/'' else q)
                  in if isAbsolute then CHR ''/'' # q' else q')))"

definition posix_join :: "string \<Rightarrow> string \<Rightarrow> string" where
  "posix_join a b =
     (let parts = filter (\<lambda>arg. arg \<noteq> []) [a, b]
      in if parts = [] then ''.'' else posix_normalize (joinSlash parts))"

fun dirnameScan :: "string \<Rightarrow> nat \<Rightarrow> bool \<Rightarrow> nat option" where
  "dirnameScan p 0 matchedSlash = None"
| "dirnameScan p (Suc k) matchedSlash =
     (if p ! Suc k = CHR ''/''
      then (if \<not> matchedSlash then Some (Suc k) else dirnameScan p k matchedSlash)
      else dirnameScan p k False)"

definition posix_dirname :: "string \<Rightarrow> string" where
  "posix_dirname p =
     (if p = [] then ''.''
      else
        (let hasRoot = (hd p = CHR ''/'')
         in case dirnameScan p (length p - 1) True of
              None \<Rightarrow> (if hasRoot then ''/'' else ''.'')
            | Some e \<Rightarrow> (if hasRoot \<and> e = 1 then ''//'' else take e p)))"

section \<open>Conversion of one execution state\<close>

definition startsWith :: "string \<Rightarrow> string \<Rightarrow> bool" where
  "startsWith s p = (take (length p) s = p)"

text \<open>
  The block under \<open>if (!includeUnrelatedContracts)\<close>, as a change of the \<open>buildInfo\<close>
  object: \<open>sourceCode\<close> is \<open>buildInfo.input\<close>, so each \<open>delete sourceCode.sources[source]\<close>
  removes the entry from \<open>buildInfo.input.sources\<close>. The source names are computed before
  the first deletion.
\<close>

definition pruneUnrelatedSources ::
  "externals \<Rightarrow> Artifact \<Rightarrow> BuildInfo \<Rightarrow> (error + BuildInfo) option" where
  "pruneUnrelatedSources ext artifact buildInfo =
     (case getImportSourceNames ext (sourceName artifact) buildInfo of
        None \<Rightarrow> None
      | Some (Inl e) \<Rightarrow> Some (Inl e)
      | Some (Inr importNames) \<Rightarrow>
          (let sourceNames = sourceName artifact # importNames
           in Some (Inr (buildInfo\<lparr>input := (input buildInfo)\<lparr>sources :=
                filter (\<lambda>(source, src). source \<in> set sourceNames)
                  (sources (input buildInfo))\<rparr>\<rparr>))))"

text \<open>
  \<open>convertExStateToVerifyInfo\<close>, with the store before the call as an argument and the
  store after it in the result. \<open>None\<close> is a call that never returns. The field
  \<open>sourceCode\<close> holds the compiler input that \<open>JSON.stringify\<close> serialises.
\<close>

definition convertExStateToVerifyInfo ::
  "externals \<Rightarrow> DeploymentExecutionState \<Rightarrow> FileDeploymentLoader \<Rightarrow> bool \<Rightarrow> heap
    \<Rightarrow> ((error + VerifyInfo) \<times> heap) option" where
  "convertExStateToVerifyInfo ext exState deploymentLoader includeUnrelatedContracts h =
     (let (ref, h1) = readBuildInfo deploymentLoader (artifactId exState) h;
          artifact = loadArtifact deploymentLoader (artifactId exState);
          noResult = ASSERTION_ERROR (''Deployment execution state '' @ exId exState
                       @ '' should have a successful result to retrieve address'')
      in case result exState of
           None \<Rightarrow> Some (Inl noResult, h1)
         | Some (OTHER_RESULT kind) \<Rightarrow> Some (Inl noResult, h1)
         | Some (SUCCESS_RESULT deployedAddress) \<Rightarrow>
             (case prepareInputBasedOn (objects h1 ref) artifact (exLibraries exState) of
                Inl e \<Rightarrow> Some (Inl e, h1)
              | Inr (prepared, buildInfo1) \<Rightarrow>
                  (let h2 = h1\<lparr>objects := (objects h1)(ref := buildInfo1)\<rparr>
                   in case (if \<not> includeUnrelatedContracts
                            then pruneUnrelatedSources ext artifact buildInfo1
                            else Some (Inr buildInfo1)) of
                        None \<Rightarrow> None
                      | Some (Inl e) \<Rightarrow> Some (Inl e, h2)
                      | Some (Inr buildInfo2) \<Rightarrow>
                          Some (Inr \<lparr>address = deployedAddress,
                                     compilerVersion =
                                       (if startsWith (solcLongVersion buildInfo2) ''v''
                                        then solcLongVersion buildInfo2
                                        else ''v'' @ solcLongVersion buildInfo2),
                                     sourceCode = input buildInfo2,
                                     name = sourceName artifact @ '':'' @ contractName exState,
                                     args = encodeDeploymentArguments ext artifact
                                              (constructorArgs exState)\<rparr>,
                                h2\<lparr>objects := (objects h2)(ref := buildInfo2)\<rparr>))))"

section \<open>The pipeline\<close>

text \<open>
  Modelled from the spec: \<open>findExecutionStatesByType\<close> of \<open>internal/views\<close>, which is not
  part of \<open>verify.ts\<close>, at the type \<open>DEPLOYMENT_EXECUTION_STATE\<close>: the execution records of
  kind deployment execution, in the order in which they appear in the deployment state.
\<close>

fun findExecutionStatesByType :: "ExecutionState list \<Rightarrow> DeploymentExecutionState list" where
  "findExecutionStatesByType [] = []"
| "findExecutionStatesByType (DEPLOYMENT_EXECUTION_STATE ex # rest) =
     ex # findExecutionStatesByType rest"
| "findExecutionStatesByType (OTHER_EXECUTION_STATE kind st # rest) =
     findExecutionStatesByType rest"

text \<open>
  How a run of the generator ends, for a consumer that asks for every element: it
  returns, it throws, or a conversion never returns.
\<close>

datatype ending = Returned | Thrown error | NeverReturns

text \<open>
  The \<open>for\<close> loop of \<open>getVerificationInformation\<close>: the elements yielded, in order, and
  how the run ends. The store is threaded from one conversion to the next.
\<close>

fun yieldVerifyResults ::
  "externals \<Rightarrow> ChainConfig \<Rightarrow> FileDeploymentLoader \<Rightarrow> bool
    \<Rightarrow> DeploymentExecutionState list \<Rightarrow> heap \<Rightarrow> VerifyResult list \<times> ending" where
  "yieldVerifyResults ext chainConfig deploymentLoader includeUnrelatedContracts [] h =
     ([], Returned)"
| "yieldVerifyResults ext chainConfig deploymentLoader includeUnrelatedContracts
     (exState # rest) h =
     (case convertExStateToVerifyInfo ext exState deploymentLoader includeUnrelatedContracts h of
        None \<Rightarrow> ([], NeverReturns)
      | Some (Inl e, h') \<Rightarrow> ([], Thrown e)
      | Some (Inr verifyInfo, h') \<Rightarrow>
          (let (yielded, fin) =
                 yieldVerifyResults ext chainConfig deploymentLoader includeUnrelatedContracts
                   rest h'
           in ((chainConfig, verifyInfo) # yielded, fin)))"

definition getVerificationInformation ::
  "externals \<Rightarrow> string \<Rightarrow> ChainConfig list \<Rightarrow> bool \<Rightarrow> heap \<Rightarrow> VerifyResult list \<times> ending" where
  "getVerificationInformation ext deploymentDir customChains includeUnrelatedContracts h =
     (let deploymentLoader = newFileDeploymentLoader ext deploymentDir
      in case loadDeploymentState ext deploymentLoader of
           None \<Rightarrow> ([], Thrown (UNINITIALIZED_DEPLOYMENT deploymentDir))
         | Some deploymentState \<Rightarrow>
             (case resolveChainConfig ext deploymentState customChains of
                Inl e \<Rightarrow> ([], Thrown e)
              | Inr chainConfig \<Rightarrow>
                  (let deploymentExStates =
                         filter (\<lambda>exState. status exState = SUCCESS)
                           (findExecutionStatesByType (executionStates deploymentState))
                   in if length deploymentExStates = 0
                      then ([], Thrown (NO_CONTRACTS_DEPLOYED deploymentDir))
                      else yieldVerifyResults ext chainConfig deploymentLoader
                             includeUnrelatedContracts deploymentExStates h)))"

section \<open>Example inputs\<close>

text \<open>
  Builds given by their source names and source texts, and a stand-in for the Solidity
  analyzer on those texts.
\<close>

definition exampleAnalyze :: "string \<Rightarrow> string list" where
  "exampleAnalyze c =
     (if c = ''import ./B.sol;'' then [''./B.sol'']
      else if c = ''import C.sol; import ../D/E.sol;'' then [''C.sol'', ''../D/E.sol'']
      else if c = ''import B.sol;'' then [''B.sol'']
      else if c = ''import A.sol;'' then [''A.sol'']
      else [])"

definition buildOf :: "(string \<times> string) list \<Rightarrow> BuildInfo" where
  "buildOf files =
     \<lparr>solcLongVersion = ''0.8.19+commit.7dd6d404'',
      input = \<lparr>language = ''Solidity'',
               sources = map (\<lambda>(k, c). (k, \<lparr>content = c\<rparr>)) files,
               settings = \<lparr>libraries = None, otherSettings = ''{}''\<rparr>\<rparr>\<rparr>"

definition cyclicBuild :: BuildInfo where
  "cyclicBuild = buildOf [(''A.sol'', ''import B.sol;''), (''B.sol'', ''import A.sol;'')]"

definition specExampleBuild :: BuildInfo where
  "specExampleBuild = buildOf
     [(''A.sol'', ''import ./B.sol;''), (''B.sol'', ''import C.sol; import ../D/E.sol;''),
      (''C.sol'', ''contract C {}''), (''D/E.sol'', ''contract E {}'')]"

definition parentBuild :: BuildInfo where
  "parentBuild = buildOf
     [(''A.sol'', ''import ./B.sol;''), (''B.sol'', ''import C.sol; import ../D/E.sol;''),
      (''C.sol'', ''contract C {}''), (''../D/E.sol'', ''contract E {}'')]"

definition acyclicBuild :: BuildInfo where
  "acyclicBuild = buildOf [(''A.sol'', ''import ./B.sol;''), (''B.sol'', ''contract B {}'')]"

definition mixedBuild :: BuildInfo where
  "mixedBuild = buildOf
     [(''A.sol'', ''import ./B.sol;''), (''B.sol'', ''contract B {}''),
      (''Unrelated.sol'', ''contract U {}'')]"

text \<open>
  Loaders that read the build \<open>mixedBuild\<close>, and the build \<open>cyclicBuild\<close>, for every
  artifact.
\<close>

definition exampleArtifact :: "string \<Rightarrow> Artifact" where
  "exampleArtifact aid =
     \<lparr>sourceName = (if aid = ''Mod#A'' then ''A.sol''
                    else if aid = ''Mod#U'' then ''Unrelated.sol'' else ''B.sol''),
      linkReferences = [], abi = ''[]''\<rparr>"

definition freshLoader :: FileDeploymentLoader where
  "freshLoader = fileDeploymentLoader (\<lambda>aid. mixedBuild) exampleArtifact"

definition cyclicLoader :: FileDeploymentLoader where
  "cyclicLoader = fileDeploymentLoader (\<lambda>aid. cyclicBuild) exampleArtifact"

definition exampleHeap :: heap where
  "exampleHeap = \<lparr>objects = (\<lambda>r. mixedBuild), allocated = 1\<rparr>"

text \<open>
  A deployment on chain 1 with two successful deployment records, a failed one and a
  record of another kind; the built-in chains; and the parameters, with Node's POSIX path
  functions.
\<close>

definition exampleA :: DeploymentExecutionState where
  "exampleA = \<lparr>exId = ''Mod#A'', status = SUCCESS, artifactId = ''Mod#A'', contractName = ''A'',
     constructorArgs = [], exLibraries = [], result = Some (SUCCESS_RESULT ''0x01'')\<rparr>"

definition exampleU :: DeploymentExecutionState where
  "exampleU = \<lparr>exId = ''Mod#U'', status = SUCCESS, artifactId = ''Mod#U'', contractName = ''U'',
     constructorArgs = [], exLibraries = [], result = Some (SUCCESS_RESULT ''0x02'')\<rparr>"

definition exampleState :: DeploymentState where
  "exampleState =
     \<lparr>stateChainId = 1,
      executionStates =
        [DEPLOYMENT_EXECUTION_STATE exampleA,
         OTHER_EXECUTION_STATE ''Mod#call'' SUCCESS,
         DEPLOYMENT_EXECUTION_STATE (exampleA\<lparr>exId := ''Mod#F'', status := FAILED, result := None\<rparr>),
         DEPLOYMENT_EXECUTION_STATE exampleU]\<rparr>"

definition exampleChains :: "ChainConfig list" where
  "exampleChains =
     [\<lparr>chainId = 1, chainName = ''mainnet'', endpoint = ''https://api.etherscan.io/api''\<rparr>,
      \<lparr>chainId = 5, chainName = ''goerli'', endpoint = ''https://api-goerli.etherscan.io/api''\<rparr>]"

definition posixExternals :: externals where
  "posixExternals =
     \<lparr>analyze = exampleAnalyze, path_dirname = posix_dirname, path_join = posix_join,
      encodeDeploymentArguments = (\<lambda>artifact values. concat values),
      builtinChains = exampleChains,
      newFileDeploymentLoader = (\<lambda>dir. freshLoader),
      loadDeploymentState = (\<lambda>loader. Some exampleState)\<rparr>"

text \<open>The same parameters with other deployment states.\<close>

definition unsupportedExternals :: externals where
  "unsupportedExternals = posixExternals\<lparr>loadDeploymentState :=
     (\<lambda>loader. Some \<lparr>stateChainId = 31337, executionStates = []\<rparr>)\<rparr>"

definition unsupportedWithRecord :: externals where
  "unsupportedWithRecord = posixExternals\<lparr>loadDeploymentState :=
     (\<lambda>loader. Some \<lparr>stateChainId = 31337,
        executionStates = [DEPLOYMENT_EXECUTION_STATE exampleA]\<rparr>)\<rparr>"

definition emptyMainnet :: externals where
  "emptyMainnet = posixExternals\<lparr>loadDeploymentState :=
     (\<lambda>loader. Some \<lparr>stateChainId = 1,
        executionStates = [OTHER_EXECUTION_STATE ''Mod#call'' SUCCESS,
          DEPLOYMENT_EXECUTION_STATE (exampleA\<lparr>status := FAILED, result := None\<rparr>)]\<rparr>)\<rparr>"

text \<open>The values the conversions of the two records produce, and the stores they leave.\<close>

definition prunedA :: BuildInfo where
  "prunedA = buildOf [(''A.sol'', ''import ./B.sol;''), (''B.sol'', ''contract B {}'')]"

definition prunedU :: BuildInfo where
  "prunedU = buildOf [(''Unrelated.sol'', ''contract U {}'')]"

definition verifyInfoA :: VerifyInfo where
  "verifyInfoA = \<lparr>address = ''0x01'', compilerVersion = ''v0.8.19+commit.7dd6d404'',
     sourceCode = input prunedA, name = ''A.sol:A'', args = ''''\<rparr>"

definition verifyInfoU :: VerifyInfo where
  "verifyInfoU = \<lparr>address = ''0x02'', compilerVersion = ''v0.8.19+commit.7dd6d404'',
     sourceCode = input prunedU, name = ''Unrelated.sol:U'', args = ''''\<rparr>"

definition heapFresh :: heap where
  "heapFresh = \<lparr>objects = (\<lambda>r. mixedBuild)(1 := prunedA), allocated = 2\<rparr>"

definition heapFresh2 :: heap where
  "heapFresh2 = \<lparr>objects = (\<lambda>r. mixedBuild)(1 := prunedA, 2 := prunedU), allocated = 3\<rparr>"

section \<open>Chain configuration: the custom chains come first\<close>

lemma find_append_Some:
  "find P xs = Some x \<Longrightarrow> find P (xs @ ys) = Some x"
  by (induction xs) (auto split: if_splits)

lemma find_first_index:
  "find P xs = Some x \<longleftrightarrow> (\<exists>i<length xs. xs ! i = x \<and> P x \<and> (\<forall>j<i. \<not> P (xs ! j)))"
  by (auto simp: find_Some_iff)

text \<open>
  C4. When some custom chain has the deployment's chain id, \<open>resolveChainConfig\<close> returns
  a custom chain, the first one in \<open>customChains\<close> with that id, whatever the built-in list
  holds. In general it returns \<open>c\<close> exactly when \<open>c\<close> is the first entry with that id in
  \<open>customChains\<close> followed by the built-in chains.
\<close>

theorem resolveChainConfig_custom_first:
  "((\<exists>x\<in>set customChains. chainId x = stateChainId deploymentState) \<longrightarrow>
      (\<exists>i<length customChains.
          resolveChainConfig ext deploymentState customChains = Inr (customChains ! i)
        \<and> chainId (customChains ! i) = stateChainId deploymentState
        \<and> (\<forall>j<i. chainId (customChains ! j) \<noteq> stateChainId deploymentState)))
   \<and> (resolveChainConfig ext deploymentState customChains = Inr c \<longleftrightarrow>
      (\<exists>i<length (customChains @ builtinChains ext).
          (customChains @ builtinChains ext) ! i = c
        \<and> chainId c = stateChainId deploymentState
        \<and> (\<forall>j<i. chainId ((customChains @ builtinChains ext) ! j) \<noteq> stateChainId deploymentState)))"
proof (intro conjI impI)
  let ?P = "\<lambda>c. chainId c = stateChainId deploymentState"
  show "resolveChainConfig ext deploymentState customChains = Inr c \<longleftrightarrow>
      (\<exists>i<length (customChains @ builtinChains ext).
          (customChains @ builtinChains ext) ! i = c
        \<and> chainId c = stateChainId deploymentState
        \<and> (\<forall>j<i. chainId ((customChains @ builtinChains ext) ! j) \<noteq> stateChainId deploymentState))"
  proof -
    have "resolveChainConfig ext deploymentState customChains = Inr c \<longleftrightarrow>
        find ?P (customChains @ builtinChains ext) = Some c"
      by (simp add: resolveChainConfig_def split: option.splits)
    then show ?thesis
      unfolding find_first_index[of ?P "customChains @ builtinChains ext" c] .
  qed
  assume "\<exists>x\<in>set customChains. chainId x = stateChainId deploymentState"
  then obtain x where fx: "find ?P customChains = Some x"
    by (cases "find ?P customChains") (auto simp: find_None_iff)
  then obtain i where i: "i < length customChains" "customChains ! i = x" "?P x"
      "\<forall>j<i. \<not> ?P (customChains ! j)"
    unfolding find_first_index by blast
  have "find ?P (customChains @ builtinChains ext) = Some x"
    using fx by (rule find_append_Some)
  then have "resolveChainConfig ext deploymentState customChains = Inr x"
    by (simp add: resolveChainConfig_def)
  with i show "\<exists>i<length customChains.
          resolveChainConfig ext deploymentState customChains = Inr (customChains ! i)
        \<and> chainId (customChains ! i) = stateChainId deploymentState
        \<and> (\<forall>j<i. chainId (customChains ! j) \<noteq> stateChainId deploymentState)"
    by blast
qed

theorem resolveChainConfig_custom_first_witness:
  "resolveChainConfig
     \<lparr>analyze = (\<lambda>c. []), path_dirname = (\<lambda>p. p), path_join = (\<lambda>a b. b),
      encodeDeploymentArguments = (\<lambda>a vs. []),
      builtinChains = exampleChains,
      newFileDeploymentLoader = (\<lambda>d. \<lparr>readBuildInfo = (\<lambda>a h. (0, h)),
         loadArtifact = (\<lambda>a. \<lparr>sourceName = [], linkReferences = [], abi = []\<rparr>)\<rparr>),
      loadDeploymentState = (\<lambda>l. None)\<rparr>
     \<lparr>stateChainId = 1, executionStates = []\<rparr>
     [\<lparr>chainId = 7, chainName = ''other'', endpoint = ''https://other.example/api''\<rparr>,
      \<lparr>chainId = 1, chainName = ''mine'', endpoint = ''https://scan.example/api''\<rparr>]
   = Inr \<lparr>chainId = 1, chainName = ''mine'', endpoint = ''https://scan.example/api''\<rparr>"
  (is "resolveChainConfig ?ext ?st ?C = Inr ?c")
proof -
  have h: "\<exists>x\<in>set ?C. chainId x = stateChainId ?st" by simp
  have "(\<exists>x\<in>set ?C. chainId x = stateChainId ?st) \<longrightarrow>
      (\<exists>i<length ?C.
          resolveChainConfig ?ext ?st ?C = Inr (?C ! i)
        \<and> chainId (?C ! i) = stateChainId ?st
        \<and> (\<forall>j<i. chainId (?C ! j) \<noteq> stateChainId ?st))"
    by (rule resolveChainConfig_custom_first[of ?C ?st ?ext, THEN conjunct1])
  from this h have "\<exists>i<length ?C.
          resolveChainConfig ?ext ?st ?C = Inr (?C ! i)
        \<and> chainId (?C ! i) = stateChainId ?st
        \<and> (\<forall>j<i. chainId (?C ! j) \<noteq> stateChainId ?st)"
    by (rule mp)
  then obtain i where i: "i < length ?C" "resolveChainConfig ?ext ?st ?C = Inr (?C ! i)"
    "chainId (?C ! i) = stateChainId ?st"
    by (elim exE conjE)
  from i(1) have "i = 0 \<or> i = 1" by (simp add: less_Suc_eq)
  then have "i = 1" using i(3) by (elim disjE) simp_all
  with i(2) show ?thesis by simp
qed


section \<open>Library resolution\<close>

lemma libraryAddressAt_update:
  "libraryAddressAt (Some (AList.update s obj m)) s' l = (if s' = s then map_of obj l else libraryAddressAt (Some m) s' l)"
  by (simp add: libraryAddressAt_def update_conv')

lemma update_not_Nil: "AList.update k v al \<noteq> []"
  by (cases al) auto

lemma libs_all_present:
  "\<forall>l\<in>fst ` set refs. getProperty libs l \<noteq> None \<Longrightarrow>
   \<exists>acc'. resolveLibraryInfo_libs s refs libs acc = Inr acc'
     \<and> (\<forall>s' l'. libraryAddressAt (Some acc') s' l' =
           (if s' = s \<and> l' \<in> fst ` set refs then getProperty libs l' else libraryAddressAt (Some acc) s' l'))
     \<and> fst ` set acc' = fst ` set acc \<union> (if refs = [] then {} else {s})
     \<and> (\<forall>k. map_of acc' k = Some [] \<longrightarrow> map_of acc k = Some [])"
proof (induction refs arbitrary: acc)
  case Nil
  then show ?case by simp
next
  case (Cons p rest)
  obtain l offs where p: "p = (l, offs)" by (cases p)
  from Cons.prems p obtain a where a: "getProperty libs l = Some a" by auto
  define acc1 where "acc1 = (case map_of acc s of None \<Rightarrow> AList.update s [] acc | Some obj \<Rightarrow> acc)"
  define acc2 where "acc2 = AList.update s (AList.update l a (case map_of acc1 s of None \<Rightarrow> [] | Some obj \<Rightarrow> obj)) acc1"
  have step: "resolveLibraryInfo_libs s (p # rest) libs acc = resolveLibraryInfo_libs s rest libs acc2"
    by (simp add: p a acc1_def acc2_def Let_def)
  have rest: "\<forall>l\<in>fst ` set rest. getProperty libs l \<noteq> None" using Cons.prems by auto
  from Cons.IH[OF rest, of acc2] obtain acc' where
    r: "resolveLibraryInfo_libs s rest libs acc2 = Inr acc'"
    and lk: "\<And>s' l'. libraryAddressAt (Some acc') s' l' =
           (if s' = s \<and> l' \<in> fst ` set rest then getProperty libs l' else libraryAddressAt (Some acc2) s' l')"
    and keys: "fst ` set acc' = fst ` set acc2 \<union> (if rest = [] then {} else {s})"
    and emp: "\<And>k. map_of acc' k = Some [] \<Longrightarrow> map_of acc2 k = Some []"
    by blast
  have lk1: "libraryAddressAt (Some acc1) s' l' = libraryAddressAt (Some acc) s' l'" for s' l'
    by (auto simp: acc1_def libraryAddressAt_def update_conv' split: option.splits)
  have lk2: "libraryAddressAt (Some acc2) s' l' =
      (if s' = s then (if l' = l then Some a else libraryAddressAt (Some acc) s l') else libraryAddressAt (Some acc) s' l')" for s' l'
    unfolding acc2_def libraryAddressAt_update
    using lk1[of s l'] lk1[of s' l']
    by (auto simp: update_conv' libraryAddressAt_def split: option.splits)
  have k1: "fst ` set acc1 = insert s (fst ` set acc) \<or> (fst ` set acc1 = fst ` set acc \<and> s \<in> fst ` set acc)"
    by (auto simp: acc1_def dom_update dom_map_of_conv_image_fst[symmetric] update_conv' split: option.splits)
  have k2: "fst ` set acc2 = insert s (fst ` set acc)"
    using k1 by (auto simp: acc2_def dom_map_of_conv_image_fst[symmetric] update_conv')
  have e2: "map_of acc2 k = Some [] \<Longrightarrow> map_of acc k = Some []" for k
    by (auto simp: acc2_def acc1_def update_conv' update_not_Nil split: if_splits option.splits)
  show ?case
  proof (intro exI conjI allI impI)
    show "resolveLibraryInfo_libs s (p # rest) libs acc = Inr acc'" using step r by simp
    show "libraryAddressAt (Some acc') s' l' =
       (if s' = s \<and> l' \<in> fst ` set (p # rest) then getProperty libs l' else libraryAddressAt (Some acc) s' l')" for s' l'
      using lk[of s' l'] lk2[of s' l'] a p by auto
    show "fst ` set acc' = fst ` set acc \<union> (if p # rest = [] then {} else {s})"
      using keys k2 by auto
    show "map_of acc' k = Some [] \<Longrightarrow> map_of acc k = Some []" for k
      using emp e2 by blast
  qed
qed

lemma sources_all_present:
  "\<forall>(s, refs)\<in>set lr. \<forall>l\<in>fst ` set refs. getProperty libs l \<noteq> None \<Longrightarrow>
   \<exists>acc'. resolveLibraryInfo_sources lr libs acc = Inr acc'
     \<and> (\<forall>s' l'. libraryAddressAt (Some acc') s' l' =
           (if \<exists>refs. (s', refs) \<in> set lr \<and> l' \<in> fst ` set refs then getProperty libs l'
            else libraryAddressAt (Some acc) s' l'))
     \<and> fst ` set acc' = fst ` set acc \<union> {s. \<exists>refs. (s, refs) \<in> set lr \<and> refs \<noteq> []}"
proof (induction lr arbitrary: acc)
  case Nil
  then show ?case by simp
next
  case (Cons p rest)
  obtain s refs where p: "p = (s, refs)" by (cases p)
  from Cons.prems p have here: "\<forall>l\<in>fst ` set refs. getProperty libs l \<noteq> None" by auto
  from libs_all_present[OF here, of s acc] obtain acc1 where
    r1: "resolveLibraryInfo_libs s refs libs acc = Inr acc1"
    and lk1: "\<And>s' l'. libraryAddressAt (Some acc1) s' l' =
           (if s' = s \<and> l' \<in> fst ` set refs then getProperty libs l' else libraryAddressAt (Some acc) s' l')"
    and k1: "fst ` set acc1 = fst ` set acc \<union> (if refs = [] then {} else {s})"
    by blast
  have rest: "\<forall>(s, refs)\<in>set rest. \<forall>l\<in>fst ` set refs. getProperty libs l \<noteq> None"
    using Cons.prems by auto
  from Cons.IH[OF rest, of acc1] obtain acc' where
    r: "resolveLibraryInfo_sources rest libs acc1 = Inr acc'"
    and lk: "\<And>s' l'. libraryAddressAt (Some acc') s' l' =
           (if \<exists>refs. (s', refs) \<in> set rest \<and> l' \<in> fst ` set refs then getProperty libs l'
            else libraryAddressAt (Some acc1) s' l')"
    and k: "fst ` set acc' = fst ` set acc1 \<union> {s. \<exists>refs. (s, refs) \<in> set rest \<and> refs \<noteq> []}"
    by blast
  show ?case
  proof (intro exI conjI allI)
    show "resolveLibraryInfo_sources (p # rest) libs acc = Inr acc'"
      by (simp add: p r1 r)
    show "libraryAddressAt (Some acc') s' l' =
           (if \<exists>refs. (s', refs) \<in> set (p # rest) \<and> l' \<in> fst ` set refs then getProperty libs l'
            else libraryAddressAt (Some acc) s' l')" for s' l'
      unfolding lk[of s' l'] lk1[of s' l'] p by auto
    show "fst ` set acc' = fst ` set acc \<union> {s. \<exists>refs. (s, refs) \<in> set (p # rest) \<and> refs \<noteq> []}"
      unfolding k k1 p by auto
  qed
qed

lemma libs_missing:
  "l \<in> fst ` set refs \<Longrightarrow> getProperty libs l = None \<Longrightarrow>
   \<exists>l'\<in>fst ` set refs. getProperty libs l' = None \<and>
     resolveLibraryInfo_libs s refs libs acc =
       Inl (ASSERTION_ERROR (''Could not find address for library '' @ l'))"
proof (induction refs arbitrary: acc)
  case Nil
  then show ?case by simp
next
  case (Cons p rest)
  obtain k offs where p: "p = (k, offs)" by (cases p)
  show ?case
  proof (cases "getProperty libs k")
    case None
    then show ?thesis by (auto simp: p Let_def intro!: bexI[of _ k])
  next
    case (Some a)
    with Cons.prems p have "l \<in> fst ` set rest" by auto
    from Cons.IH[OF this Cons.prems(2)] show ?thesis
      by (simp add: p Some Let_def)
  qed
qed

lemma libs_result:
  "(\<exists>acc'. resolveLibraryInfo_libs s refs libs acc = Inr acc') \<or>
   (\<exists>l'\<in>fst ` set refs. getProperty libs l' = None \<and>
     resolveLibraryInfo_libs s refs libs acc =
       Inl (ASSERTION_ERROR (''Could not find address for library '' @ l')))"
proof (cases "\<forall>l\<in>fst ` set refs. getProperty libs l \<noteq> None")
  case True
  from libs_all_present[OF this, of s acc]
  obtain acc' where "resolveLibraryInfo_libs s refs libs acc = Inr acc'"
    by (elim exE conjE)
  then show ?thesis by (intro disjI1 exI)
next
  case False
  then obtain l where l: "l \<in> fst ` set refs" "getProperty libs l = None"
    by (auto simp only: not_all Ball_def not_imp not_not)
  show ?thesis by (rule disjI2) (rule libs_missing[OF l])
qed

lemma sources_missing:
  "(sn, refs) \<in> set lr \<Longrightarrow> l \<in> fst ` set refs \<Longrightarrow> getProperty libs l = None \<Longrightarrow>
   \<exists>sn' refs' l'. (sn', refs') \<in> set lr \<and> l' \<in> fst ` set refs' \<and> getProperty libs l' = None \<and>
     resolveLibraryInfo_sources lr libs acc =
       Inl (ASSERTION_ERROR (''Could not find address for library '' @ l'))"
proof (induction lr arbitrary: acc)
  case Nil
  then show ?case by simp
next
  case (Cons p rest)
  obtain s rs where p: "p = (s, rs)" by (cases p)
  from libs_result[of s rs libs acc] show ?case
  proof (elim disjE exE bexE conjE)
    fix acc'
    assume a: "resolveLibraryInfo_libs s rs libs acc = Inr acc'"
    have "(sn, refs) \<noteq> (s, rs)"
    proof
      assume "(sn, refs) = (s, rs)"
      then have "l \<in> fst ` set rs" using Cons.prems(2) by simp
      from libs_missing[OF this Cons.prems(3), of s acc] a show False
        by (elim bexE conjE) simp
    qed
    with Cons.prems(1) p have "(sn, refs) \<in> set rest" by auto
    from Cons.IH[OF this Cons.prems(2,3), of acc'] obtain sn' refs' l' where
      r: "(sn', refs') \<in> set rest" "l' \<in> fst ` set refs'" "getProperty libs l' = None"
        "resolveLibraryInfo_sources rest libs acc' =
           Inl (ASSERTION_ERROR (''Could not find address for library '' @ l'))"
      by (elim exE conjE)
    have "resolveLibraryInfo_sources (p # rest) libs acc =
           Inl (ASSERTION_ERROR (''Could not find address for library '' @ l'))"
      using r(4) by (simp only: p resolveLibraryInfo_sources.simps a sum.case)
    with r(1,2,3) show ?thesis
      by (intro exI[of _ sn'] exI[of _ refs'] exI[of _ l'] conjI) simp_all
  next
    fix l'
    assume l': "l' \<in> fst ` set rs" "getProperty libs l' = None"
      and e: "resolveLibraryInfo_libs s rs libs acc =
       Inl (ASSERTION_ERROR (''Could not find address for library '' @ l'))"
    have "resolveLibraryInfo_sources (p # rest) libs acc =
           Inl (ASSERTION_ERROR (''Could not find address for library '' @ l'))"
      by (simp only: p resolveLibraryInfo_sources.simps e sum.case)
    with l' show ?thesis
      by (intro exI[of _ s] exI[of _ rs] exI[of _ l'] conjI) (simp_all add: p)
  qed
qed

lemma sources_all_empty:
  "\<forall>(s, refs)\<in>set lr. refs = [] \<Longrightarrow> resolveLibraryInfo_sources lr libs acc = Inr acc"
  by (induction lr arbitrary: acc) auto


lemma getProperty_own:
  "map_of libs l = Some a \<Longrightarrow> getProperty libs l = Some (JsString a)"
  by (simp add: getProperty_def)

lemma getProperty_own_iff:
  "map_of libs l \<noteq> None \<Longrightarrow> getProperty libs l = map_option JsString (map_of libs l)"
  by (auto simp: getProperty_def)

lemma librariesComplete_iff:
  "librariesComplete artifact libs \<longleftrightarrow>
     (\<forall>(s, refs)\<in>set (linkReferences artifact). \<forall>l\<in>fst ` set refs. map_of libs l \<noteq> None)"
  by (fastforce simp: librariesComplete_def list_all_iff)

text \<open>
  C5. When every library named in the link references has an address in \<open>libraries\<close>,
  \<open>resolveLibraryInfoForArtifact\<close> returns a mapping that holds, under each source path
  and library name of the link references, that library's address, and nothing under any
  other pair; its keys are the source paths that name at least one library. It is \<open>null\<close>
  exactly when no source path names a library, in particular for an artifact without link
  references, and then \<open>prepareInputBasedOn\<close> returns \<open>buildInfo.input\<close> unchanged. Otherwise
  \<open>settings.libraries\<close> becomes the resolved mapping, whatever it was before, and nothing
  else of the input changes.
\<close>

theorem resolveLibraryInfoForArtifact_complete:
  assumes "librariesComplete artifact libs"
  shows "\<exists>r. resolveLibraryInfoForArtifact artifact libs = Inr r
    \<and> (\<forall>s l. libraryAddressAt r s l =
          (if \<exists>refs. (s, refs) \<in> set (linkReferences artifact) \<and> l \<in> fst ` set refs
           then map_option JsString (map_of libs l) else None))
    \<and> (r = None \<longleftrightarrow> (\<forall>(s, refs)\<in>set (linkReferences artifact). refs = []))
    \<and> (\<forall>m. r = Some m \<longrightarrow>
          fst ` set m = {s. \<exists>refs. (s, refs) \<in> set (linkReferences artifact) \<and> refs \<noteq> []})
    \<and> prepareInputBasedOn buildInfo artifact libs =
        Inr (case r of
               None \<Rightarrow> (input buildInfo, buildInfo)
             | Some m \<Rightarrow>
                 (let i = (input buildInfo)\<lparr>settings :=
                            (settings (input buildInfo))\<lparr>libraries := Some m\<rparr>\<rparr>
                  in (i, buildInfo\<lparr>input := i\<rparr>)))"
proof -
  from assms have own: "\<forall>(s, refs)\<in>set (linkReferences artifact).
      \<forall>l\<in>fst ` set refs. map_of libs l \<noteq> None"
    by (simp add: librariesComplete_iff)
  then have "\<forall>(s, refs)\<in>set (linkReferences artifact).
      \<forall>l\<in>fst ` set refs. getProperty libs l \<noteq> None"
    by (fastforce simp: getProperty_own_iff)
  from sources_all_present[OF this, of "[]"] obtain acc where
    r: "resolveLibraryInfo_sources (linkReferences artifact) libs [] = Inr acc"
    and lk0: "\<And>s l. libraryAddressAt (Some acc) s l =
          (if \<exists>refs. (s, refs) \<in> set (linkReferences artifact) \<and> l \<in> fst ` set refs
           then getProperty libs l else libraryAddressAt (Some []) s l)"
    and keys: "fst ` set acc =
          {s. \<exists>refs. (s, refs) \<in> set (linkReferences artifact) \<and> refs \<noteq> []}"
    by auto
  have lk: "libraryAddressAt (Some acc) s l =
          (if \<exists>refs. (s, refs) \<in> set (linkReferences artifact) \<and> l \<in> fst ` set refs
           then map_option JsString (map_of libs l) else libraryAddressAt (Some []) s l)" for s l
  proof (cases "\<exists>refs. (s, refs) \<in> set (linkReferences artifact) \<and> l \<in> fst ` set refs")
    case True
    with own have "map_of libs l \<noteq> None" by fastforce
    then have "getProperty libs l = map_option JsString (map_of libs l)"
      by (rule getProperty_own_iff)
    have "libraryAddressAt (Some acc) s l = getProperty libs l"
      unfolding lk0[of s l] using True by (simp only: if_True)
    then show ?thesis
      using True \<open>getProperty libs l = map_option JsString (map_of libs l)\<close>
      by (simp only: if_True)
  next
    case False
    have "libraryAddressAt (Some acc) s l = libraryAddressAt (Some []) s l"
      unfolding lk0[of s l] using False by (simp only: if_False)
    then show ?thesis using False by (simp only: if_False)
  qed
  define r where "r = (if length acc = 0 then None else Some acc)"
  have res: "resolveLibraryInfoForArtifact artifact libs = Inr r"
    by (simp add: resolveLibraryInfoForArtifact_def r r_def)
  have empty: "acc = [] \<longleftrightarrow> (\<forall>(s, refs)\<in>set (linkReferences artifact). refs = [])"
  proof -
    have "acc = [] \<longleftrightarrow> fst ` set acc = {}" by simp
    also have "\<dots> \<longleftrightarrow> (\<forall>(s, refs)\<in>set (linkReferences artifact). refs = [])"
      unfolding keys by auto
    finally show ?thesis .
  qed
  have look: "libraryAddressAt r s l =
          (if \<exists>refs. (s, refs) \<in> set (linkReferences artifact) \<and> l \<in> fst ` set refs
           then map_option JsString (map_of libs l) else None)" for s l
  proof (cases "acc = []")
    case True
    with lk[of s l] show ?thesis by (auto simp: r_def libraryAddressAt_def split: if_splits)
  next
    case False
    with lk[of s l] show ?thesis by (auto simp: r_def libraryAddressAt_def split: if_splits)
  qed
  show ?thesis
  proof (intro exI[of _ r] conjI allI impI)
    show "resolveLibraryInfoForArtifact artifact libs = Inr r" by (rule res)
    show "libraryAddressAt r s l =
          (if \<exists>refs. (s, refs) \<in> set (linkReferences artifact) \<and> l \<in> fst ` set refs
           then map_option JsString (map_of libs l) else None)" for s l by (rule look)
    show "r = None \<longleftrightarrow> (\<forall>(s, refs)\<in>set (linkReferences artifact). refs = [])"
      using empty by (simp add: r_def)
    show "fst ` set m = {s. \<exists>refs. (s, refs) \<in> set (linkReferences artifact) \<and> refs \<noteq> []}"
      if "r = Some m" for m
      using that keys by (simp add: r_def split: if_splits)
    show "prepareInputBasedOn buildInfo artifact libs =
        Inr (case r of
               None \<Rightarrow> (input buildInfo, buildInfo)
             | Some m \<Rightarrow>
                 (let i = (input buildInfo)\<lparr>settings :=
                            (settings (input buildInfo))\<lparr>libraries := Some m\<rparr>\<rparr>
                  in (i, buildInfo\<lparr>input := i\<rparr>)))"
      by (simp add: prepareInputBasedOn_def res Let_def split: option.splits)
  qed
qed

theorem resolveLibraryInfoForArtifact_complete_witness:
  "librariesComplete
     \<lparr>sourceName = ''contracts/Token.sol'',
      linkReferences = [(''Lib.sol'', [(''MathLib'', [(10, 20)])])], abi = ''[]''\<rparr>
     [(''MathLib'', ''0xabc'')]
   \<and> (\<exists>r. resolveLibraryInfoForArtifact
          \<lparr>sourceName = ''contracts/Token.sol'',
           linkReferences = [(''Lib.sol'', [(''MathLib'', [(10, 20)])])], abi = ''[]''\<rparr>
          [(''MathLib'', ''0xabc'')] = Inr r
        \<and> r = Some [(''Lib.sol'', [(''MathLib'', JsString ''0xabc'')])]
        \<and> libraryAddressAt r ''Lib.sol'' ''MathLib'' = Some (JsString ''0xabc''))"
proof -
  let ?a = "\<lparr>sourceName = ''contracts/Token.sol'',
      linkReferences = [(''Lib.sol'', [(''MathLib'', [(10, 20)])])], abi = ''[]''\<rparr>"
  let ?libs = "[(''MathLib'', ''0xabc'')]"
  have h: "librariesComplete ?a ?libs" by (simp add: librariesComplete_def)
  from resolveLibraryInfoForArtifact_complete[OF h, of mixedBuild] obtain r where
    r: "resolveLibraryInfoForArtifact ?a ?libs = Inr r"
    and lk: "\<forall>s l. libraryAddressAt r s l =
          (if \<exists>refs. (s, refs) \<in> set (linkReferences ?a) \<and> l \<in> fst ` set refs
           then map_option JsString (map_of ?libs l) else None)"
    by (elim exE conjE)
  have v: "resolveLibraryInfoForArtifact ?a ?libs = Inr (Some [(''Lib.sol'', [(''MathLib'', JsString ''0xabc'')])])"
    by (simp add: resolveLibraryInfoForArtifact_def getProperty_def Let_def)
  from lk[rule_format, of "''Lib.sol''" "''MathLib''"]
  have "libraryAddressAt r ''Lib.sol'' ''MathLib'' = Some (JsString ''0xabc'')" by simp
  with h r v show ?thesis by simp
qed

text \<open>
  A library name of the link references whose read \<open>libraries[libName]\<close> is \<open>undefined\<close>
  (it is no own property of \<open>libraries\<close> and no member of \<open>Object.prototype\<close>) makes
  \<open>resolveLibraryInfoForArtifact\<close> fail the invariant for such a name, and
  \<open>prepareInputBasedOn\<close> fails with it.
\<close>

lemma resolveLibraryInfoForArtifact_undefined:
  assumes "(s, refs) \<in> set (linkReferences artifact)" and "(l, offsets) \<in> set refs"
    and "getProperty libs l = None"
  shows "\<exists>s' refs' l'. (s', refs') \<in> set (linkReferences artifact) \<and> l' \<in> fst ` set refs'
    \<and> getProperty libs l' = None
    \<and> resolveLibraryInfoForArtifact artifact libs =
        Inl (ASSERTION_ERROR (''Could not find address for library '' @ l'))
    \<and> prepareInputBasedOn buildInfo artifact libs =
        Inl (ASSERTION_ERROR (''Could not find address for library '' @ l'))"
proof -
  from assms(2) have "l \<in> fst ` set refs" by force
  from sources_missing[OF assms(1) this assms(3), of "[]"] obtain s' refs' l' where
    m: "(s', refs') \<in> set (linkReferences artifact)" "l' \<in> fst ` set refs'"
      "getProperty libs l' = None"
    and e: "resolveLibraryInfo_sources (linkReferences artifact) libs [] =
       Inl (ASSERTION_ERROR (''Could not find address for library '' @ l'))"
    by (elim exE conjE)
  have r: "resolveLibraryInfoForArtifact artifact libs =
       Inl (ASSERTION_ERROR (''Could not find address for library '' @ l'))"
    by (simp only: resolveLibraryInfoForArtifact_def e sum.case)
  have "prepareInputBasedOn buildInfo artifact libs =
       Inl (ASSERTION_ERROR (''Could not find address for library '' @ l'))"
    by (simp only: prepareInputBasedOn_def r sum.case)
  with m r show ?thesis
    by (intro exI[of _ s'] exI[of _ refs'] exI[of _ l'] conjI)
qed

text \<open>
  C6 does not hold of the code. The assertion tests \<open>libraries[libName] !== undefined\<close>, and
  the read falls back to \<open>Object.prototype\<close>: for a library named \<open>toString\<close> that has no
  address in \<open>libraries\<close> the assertion passes, and the mapping returned holds the
  inherited function in the place of an address. A missing library whose name is not that
  of a member of \<open>Object.prototype\<close>, here \<open>StrLib\<close>, fails the invariant.
\<close>

theorem resolveLibraryInfoForArtifact_inherited_name:
  "map_of [(''MathLib'', ''0xabc'')] ''toString'' = None
   \<and> resolveLibraryInfoForArtifact
       \<lparr>sourceName = ''contracts/Token.sol'',
        linkReferences = [(''Lib.sol'', [(''MathLib'', [(10, 20)]), (''toString'', [(50, 20)])])],
        abi = ''[]''\<rparr>
       [(''MathLib'', ''0xabc'')]
     = Inr (Some [(''Lib.sol'',
              [(''MathLib'', JsString ''0xabc''), (''toString'', ObjectPrototypeMember ''toString'')])])
   \<and> resolveLibraryInfoForArtifact
       \<lparr>sourceName = ''contracts/Token.sol'',
        linkReferences = [(''Lib.sol'', [(''MathLib'', [(10, 20)]), (''StrLib'', [(50, 20)])])],
        abi = ''[]''\<rparr>
       [(''MathLib'', ''0xabc'')]
     = Inl (ASSERTION_ERROR ''Could not find address for library StrLib'')"
  by (simp add: resolveLibraryInfoForArtifact_def getProperty_def objectPrototypeNames_def Let_def)

text \<open>
  C10. When \<open>linkReferences\<close> is not empty but every source path in it names no library,
  \<open>resolveLibraryInfoForArtifact\<close> returns \<open>null\<close>, as it does for an artifact without link
  references, and \<open>prepareInputBasedOn\<close> returns \<open>buildInfo.input\<close> as it is, with the
  \<open>libraries\<close> setting it had.
\<close>

theorem resolveLibraryInfoForArtifact_empty_references:
  assumes "linkReferences artifact \<noteq> []"
    and "list_all (\<lambda>(s, refs). refs = []) (linkReferences artifact)"
  shows "resolveLibraryInfoForArtifact artifact libs = Inr None
    \<and> resolveLibraryInfoForArtifact artifact libs =
        resolveLibraryInfoForArtifact (artifact\<lparr>linkReferences := []\<rparr>) libs
    \<and> prepareInputBasedOn buildInfo artifact libs = Inr (input buildInfo, buildInfo)
    \<and> libraries (settings (fst (projr (prepareInputBasedOn buildInfo artifact libs))))
        = libraries (settings (input buildInfo))"
proof -
  from assms(2) have "\<forall>(s, refs)\<in>set (linkReferences artifact). refs = []"
    by (simp add: list_all_iff)
  then have "resolveLibraryInfo_sources (linkReferences artifact) libs [] = Inr []"
    by (rule sources_all_empty)
  then have r: "resolveLibraryInfoForArtifact artifact libs = Inr None"
    by (simp add: resolveLibraryInfoForArtifact_def)
  then show ?thesis
    by (simp add: prepareInputBasedOn_def resolveLibraryInfoForArtifact_def)
qed

theorem resolveLibraryInfoForArtifact_empty_references_witness:
  "resolveLibraryInfoForArtifact
     \<lparr>sourceName = ''contracts/Token.sol'',
      linkReferences = [(''Lib.sol'', []), (''Other.sol'', [])], abi = ''[]''\<rparr>
     [(''MathLib'', ''0xabc'')] = Inr None
   \<and> prepareInputBasedOn
       \<lparr>solcLongVersion = ''0.8.19+commit.7dd6d404'',
        input = \<lparr>language = ''Solidity'',
                 sources = [(''contracts/Token.sol'', \<lparr>content = ''contract Token {}''\<rparr>)],
                 settings = \<lparr>libraries = None, otherSettings = ''{}''\<rparr>\<rparr>\<rparr>
       \<lparr>sourceName = ''contracts/Token.sol'',
        linkReferences = [(''Lib.sol'', []), (''Other.sol'', [])], abi = ''[]''\<rparr>
       [(''MathLib'', ''0xabc'')]
     = Inr (\<lparr>language = ''Solidity'',
             sources = [(''contracts/Token.sol'', \<lparr>content = ''contract Token {}''\<rparr>)],
             settings = \<lparr>libraries = None, otherSettings = ''{}''\<rparr>\<rparr>,
            \<lparr>solcLongVersion = ''0.8.19+commit.7dd6d404'',
             input = \<lparr>language = ''Solidity'',
                      sources = [(''contracts/Token.sol'', \<lparr>content = ''contract Token {}''\<rparr>)],
                      settings = \<lparr>libraries = None, otherSettings = ''{}''\<rparr>\<rparr>\<rparr>)"
proof -
  let ?a = "\<lparr>sourceName = ''contracts/Token.sol'',
      linkReferences = [(''Lib.sol'', []), (''Other.sol'', [])], abi = ''[]''\<rparr>"
  have 1: "linkReferences ?a \<noteq> []" by simp
  have 2: "list_all (\<lambda>(s, refs). refs = []) (linkReferences ?a)" by simp
  from resolveLibraryInfoForArtifact_empty_references[OF 1 2] show ?thesis by simp
qed


section \<open>The import closure\<close>

lemma flatMapM_Cons_Inr:
  "flatMapM f (x # xs) = Some (Inr ys) \<longleftrightarrow>
     (\<exists>zs ws. f x = Some (Inr zs) \<and> flatMapM f xs = Some (Inr ws) \<and> ys = zs @ ws)"
proof (cases "f x")
  case None
  then show ?thesis by simp
next
  case (Some r)
  show ?thesis
  proof (cases r)
    case (Inl e)
    with Some show ?thesis by simp
  next
    case (Inr zs)
    show ?thesis
    proof (cases "flatMapM f xs")
      case None
      with Some Inr show ?thesis by simp
    next
      case (Some r')
      with \<open>f x = Some r\<close> Inr show ?thesis by (cases r') auto
    qed
  qed
qed

lemma flatMapM_Inr:
  "flatMapM f xs = Some (Inr ys) \<Longrightarrow>
     (\<forall>x\<in>set xs. \<exists>zs. f x = Some (Inr zs)) \<and>
     set ys = (\<Union>x\<in>set xs. {z. \<exists>zs. f x = Some (Inr zs) \<and> z \<in> set zs})"
proof (induction xs arbitrary: ys)
  case Nil
  then show ?case by simp
next
  case (Cons x xs)
  from Cons.prems obtain zs ws where
    fx: "f x = Some (Inr zs)" and r: "flatMapM f xs = Some (Inr ws)" and ys: "ys = zs @ ws"
    unfolding flatMapM_Cons_Inr by (elim exE conjE)
  from Cons.IH[OF r] fx ys show ?case by auto
qed

lemma flatMapM_returns:
  "\<forall>x\<in>set xs. f x \<noteq> None \<Longrightarrow> flatMapM f xs \<noteq> None"
  by (induction xs) (auto simp: Option.bind_eq_None_conv split: sum.splits)

lemma flatMapM_all_Inr:
  "\<forall>x\<in>set xs. \<exists>zs. f x = Some (Inr zs) \<Longrightarrow> \<exists>ys. flatMapM f xs = Some (Inr ys)"
  by (induction xs) auto

lemma importEdges_iff:
  "(s, t) \<in> importEdges ext b \<longleftrightarrow>
     (\<exists>src. map_of (sources (input b)) s = Some src
        \<and> t \<in> set (map (resolveImport ext s) (analyze ext (content src))))"
  by (simp add: importEdges_def)

lemma bind_case_sum_Inr:
  "Option.bind m (\<lambda>r. case r of Inl e \<Rightarrow> Some (Inl e) | Inr rest \<Rightarrow> Some (Inr (g rest)))
     = Some (Inr xs) \<longleftrightarrow> (\<exists>rest. m = Some (Inr rest) \<and> xs = g rest)"
proof (cases m)
  case None
  then show ?thesis by simp
next
  case (Some r)
  then show ?thesis by (cases r) auto
qed

lemma getImportSourceNames_body_Inr:
  assumes "(case map_of (sources (input b)) s of
        None \<Rightarrow> Some (Inl TypeError)
      | Some src \<Rightarrow>
          (let importSources = map (resolveImport ext s) (analyze ext (content src))
           in Option.bind (flatMapM g importSources)
                (\<lambda>r. case r of
                   Inl e \<Rightarrow> Some (Inl e)
                 | Inr rest \<Rightarrow> Some (Inr (importSources @ rest))))) = Some (Inr xs)"
  shows "\<exists>src rest. map_of (sources (input b)) s = Some src
     \<and> flatMapM g (map (resolveImport ext s) (analyze ext (content src)))
          = Some (Inr rest)
     \<and> xs = map (resolveImport ext s) (analyze ext (content src)) @ rest"
proof (cases "map_of (sources (input b)) s")
  case None
  with assms show ?thesis by simp
next
  case (Some src)
  with assms show ?thesis
    by (simp add: Let_def bind_case_sum_Inr)
qed

lemma getImportSourceNames_closure_aux:
  assumes "getImportSourceNames ext0 s0 b0 = Some y0"
  shows "\<forall>xs. y0 = Inr xs \<longrightarrow> set xs = {t. (s0, t) \<in> (importEdges ext0 b0)\<^sup>+}"
proof (rule getImportSourceNames.raw_induct[where P = "\<lambda>ext s b y.
    \<forall>xs. y = Inr xs \<longrightarrow> set xs = {t. (s, t) \<in> (importEdges ext b)\<^sup>+}", OF _ assms],
    goal_cases)
  case (1 f ext s b y)
  show ?case
  proof (intro allI impI)
    fix xs assume "y = Inr xs"
    with 1(2) have body: "(case map_of (sources (input b)) s of
        None \<Rightarrow> Some (Inl TypeError)
      | Some src \<Rightarrow>
          (let importSources = map (resolveImport ext s) (analyze ext (content src))
           in Option.bind (flatMapM (\<lambda>i. f ext i b) importSources)
                (\<lambda>r. case r of
                   Inl e \<Rightarrow> Some (Inl e)
                 | Inr rest \<Rightarrow> Some (Inr (importSources @ rest))))) = Some (Inr xs)"
      by simp
    from getImportSourceNames_body_Inr[OF body] obtain src rest where
      src: "map_of (sources (input b)) s = Some src"
      and fm: "flatMapM (\<lambda>i. f ext i b) (map (resolveImport ext s) (analyze ext (content src))) = Some (Inr rest)"
      and xs: "xs = map (resolveImport ext s) (analyze ext (content src)) @ rest"
      by (elim exE conjE)
    let ?imps = "map (resolveImport ext s) (analyze ext (content src))"
    let ?E = "importEdges ext b"
    have succ: "set ?imps = {t. (s, t) \<in> ?E}"
      using src by (auto simp: importEdges_iff)
    from flatMapM_Inr[OF fm] have
      all: "\<forall>i\<in>set ?imps. \<exists>zs. f ext i b = Some (Inr zs)"
      and rest: "set rest = (\<Union>i\<in>set ?imps. {z. \<exists>zs. f ext i b = Some (Inr zs) \<and> z \<in> set zs})"
      by simp_all
    have each: "{z. \<exists>zs. f ext i b = Some (Inr zs) \<and> z \<in> set zs} = {t. (i, t) \<in> ?E\<^sup>+}"
      if "i \<in> set ?imps" for i
    proof -
      from all that obtain zs where zs: "f ext i b = Some (Inr zs)" by blast
      from 1(1)[OF zs] have "set zs = {t. (i, t) \<in> ?E\<^sup>+}" by simp
      with zs show ?thesis by auto
    qed
    have r2: "set rest = (\<Union>i\<in>set ?imps. {t. (i, t) \<in> ?E\<^sup>+})"
      unfolding rest using each by auto
    have "set xs = set ?imps \<union> (\<Union>i\<in>set ?imps. {t. (i, t) \<in> ?E\<^sup>+})"
      unfolding xs set_append r2 ..
    then have "set xs = {t. (s, t) \<in> ?E} \<union> (\<Union>i\<in>{t. (s, t) \<in> ?E}. {t. (i, t) \<in> ?E\<^sup>+})"
      unfolding succ .
    also have "\<dots> = {t. (s, t) \<in> ?E\<^sup>+}"
    proof (intro set_eqI iffI)
      fix t assume "t \<in> {t. (s, t) \<in> ?E} \<union> (\<Union>i\<in>{t. (s, t) \<in> ?E}. {t. (i, t) \<in> ?E\<^sup>+})"
      then show "t \<in> {t. (s, t) \<in> ?E\<^sup>+}"
        by (auto intro: trancl_into_trancl2)
    next
      fix t assume "t \<in> {t. (s, t) \<in> ?E\<^sup>+}"
      then have "(s, t) \<in> ?E\<^sup>+" by simp
      then show "t \<in> {t. (s, t) \<in> ?E} \<union> (\<Union>i\<in>{t. (s, t) \<in> ?E}. {t. (i, t) \<in> ?E\<^sup>+})"
        by (cases rule: converse_tranclE) auto
    qed
    finally show "set xs = {t. (s, t) \<in> ?E\<^sup>+}" .
  qed
qed

lemma getImportSourceNames_closure:
  "getImportSourceNames ext s b = Some (Inr xs) \<Longrightarrow> set xs = {t. (s, t) \<in> (importEdges ext b)\<^sup>+}"
  using getImportSourceNames_closure_aux by blast

lemma getImportSourceNames_no_cycle_aux:
  assumes "getImportSourceNames ext0 s0 b0 = Some y0"
  shows "\<forall>xs. y0 = Inr xs \<longrightarrow>
     (\<forall>t. (s0, t) \<in> (importEdges ext0 b0)\<^sup>* \<longrightarrow> (t, t) \<notin> (importEdges ext0 b0)\<^sup>+)"
proof (rule getImportSourceNames.raw_induct[where P = "\<lambda>ext s b y.
    \<forall>xs. y = Inr xs \<longrightarrow>
      (\<forall>t. (s, t) \<in> (importEdges ext b)\<^sup>* \<longrightarrow> (t, t) \<notin> (importEdges ext b)\<^sup>+)", OF _ assms],
    goal_cases)
  case (1 f ext s b y)
  let ?E = "importEdges ext b"
  show ?case
  proof (intro allI impI)
    fix xs t
    assume "y = Inr xs" and st: "(s, t) \<in> ?E\<^sup>*"
    with 1(2) have body: "(case map_of (sources (input b)) s of
        None \<Rightarrow> Some (Inl TypeError)
      | Some src \<Rightarrow>
          (let importSources = map (resolveImport ext s) (analyze ext (content src))
           in Option.bind (flatMapM (\<lambda>i. f ext i b) importSources)
                (\<lambda>r. case r of
                   Inl e \<Rightarrow> Some (Inl e)
                 | Inr rest \<Rightarrow> Some (Inr (importSources @ rest))))) = Some (Inr xs)"
      by simp
    from getImportSourceNames_body_Inr[OF body] obtain src rest where
      src: "map_of (sources (input b)) s = Some src"
      and fm: "flatMapM (\<lambda>i. f ext i b) (map (resolveImport ext s) (analyze ext (content src))) = Some (Inr rest)"
      by (elim exE conjE)
    let ?imps = "map (resolveImport ext s) (analyze ext (content src))"
    have succ: "set ?imps = {t. (s, t) \<in> ?E}"
      using src by (auto simp: importEdges_iff)
    from flatMapM_Inr[OF fm] have
      all: "\<forall>i\<in>set ?imps. \<exists>zs. f ext i b = Some (Inr zs)" by simp
    have below: "(u, u) \<notin> ?E\<^sup>+" if "(s, i) \<in> ?E" "(i, u) \<in> ?E\<^sup>*" for i u
    proof -
      from that(1) succ have "i \<in> set ?imps" by simp
      with all obtain zs where zs: "f ext i b = Some (Inr zs)" by blast
      from 1(1)[OF zs] that(2) show ?thesis by simp
    qed
    show "(t, t) \<notin> ?E\<^sup>+"
    proof
      assume cyc: "(t, t) \<in> ?E\<^sup>+"
      from st have "t = s \<or> (s, t) \<in> ?E\<^sup>+" by (auto simp: rtrancl_eq_or_trancl)
      then have "(s, t) \<in> ?E\<^sup>+" using cyc by auto
      then obtain i where "(s, i) \<in> ?E" "(i, t) \<in> ?E\<^sup>*" by (blast dest: tranclD)
      from below[OF this] cyc show False by simp
    qed
  qed
qed

lemma finite_importEdges: "finite (importEdges ext b)"
proof -
  have "importEdges ext b \<subseteq>
      (\<Union>(k, src)\<in>set (sources (input b)).
         {k} \<times> set (map (resolveImport ext k) (analyze ext (content src))))"
    by (fastforce simp: importEdges_iff dest!: map_of_SomeD)
  moreover have "finite (\<Union>(k, src)\<in>set (sources (input b)).
         {k} \<times> set (map (resolveImport ext k) (analyze ext (content src))))"
    by auto
  ultimately show ?thesis by (rule finite_subset)
qed

lemma bind_case_sum_returns:
  "m \<noteq> None \<Longrightarrow>
   Option.bind m (\<lambda>r. case r of Inl e \<Rightarrow> Some (Inl e) | Inr rest \<Rightarrow> Some (Inr (g rest))) \<noteq> None"
  by (cases m) (auto split: sum.splits)

lemma getImportSourceNames_returns:
  assumes acyc: "\<forall>t. (s, t) \<in> (importEdges ext b)\<^sup>* \<longrightarrow> (t, t) \<notin> (importEdges ext b)\<^sup>+"
  shows "getImportSourceNames ext s b \<noteq> None"
proof -
  let ?E = "importEdges ext b"
  define R where "R = {t. (s, t) \<in> ?E\<^sup>*}"
  define E' where "E' = {(a, c). (a, c) \<in> ?E \<and> a \<in> R}"
  have sub: "E' \<subseteq> ?E" by (auto simp: E'_def)
  have fin: "finite E'" using sub finite_importEdges by (rule finite_subset)
  have start: "a \<in> R" if "(a, c) \<in> E'\<^sup>+" for a c
    using that by (induction rule: trancl.induct) (auto simp: E'_def)
  have "acyclic E'"
  proof (rule acyclicI, intro allI notI)
    fix a assume a: "(a, a) \<in> E'\<^sup>+"
    then have "(a, a) \<in> ?E\<^sup>+" using sub trancl_mono by blast
    moreover from start[OF a] have "(s, a) \<in> ?E\<^sup>*" by (simp add: R_def)
    ultimately show False using acyc by blast
  qed
  with fin have wf: "wf (E'\<inverse>)" by (rule finite_acyclic_wf_converse)
  have "t \<in> R \<longrightarrow> getImportSourceNames ext t b \<noteq> None" for t
  proof (induction t rule: wf_induct_rule[OF wf])
    case (1 t)
    show ?case
    proof
      assume tR: "t \<in> R"
      show "getImportSourceNames ext t b \<noteq> None"
      proof (cases "map_of (sources (input b)) t")
        case None
        then show ?thesis by (subst getImportSourceNames.simps) simp
      next
        case (Some src)
        let ?imps = "map (resolveImport ext t) (analyze ext (content src))"
        have "\<forall>i\<in>set ?imps. getImportSourceNames ext i b \<noteq> None"
        proof
          fix i assume i: "i \<in> set ?imps"
          with Some have e: "(t, i) \<in> ?E" by (auto simp: importEdges_iff)
          with tR have "(t, i) \<in> E'" by (simp add: E'_def)
          moreover from e tR have "i \<in> R" by (auto simp: R_def intro: rtrancl_into_rtrancl)
          ultimately show "getImportSourceNames ext i b \<noteq> None" using 1 by blast
        qed
        then have "flatMapM (\<lambda>i. getImportSourceNames ext i b) ?imps \<noteq> None"
          by (rule flatMapM_returns)
        then show ?thesis
          by (subst getImportSourceNames.simps) (simp add: Some Let_def bind_case_sum_returns)
      qed
    qed
  qed
  then show ?thesis by (simp add: R_def)
qed

lemma flatMapM_Inl:
  "flatMapM f xs = Some (Inl e) \<Longrightarrow> \<exists>x\<in>set xs. f x = Some (Inl e)"
proof (induction xs)
  case Nil
  then show ?case by simp
next
  case (Cons x xs)
  show ?case
  proof (cases "f x")
    case None
    with Cons.prems show ?thesis by simp
  next
    case (Some r)
    show ?thesis
    proof (cases r)
      case (Inl e')
      with Some Cons.prems show ?thesis by simp
    next
      case (Inr zs)
      show ?thesis
      proof (cases "flatMapM f xs")
        case None
        with Some Inr Cons.prems show ?thesis by simp
      next
        case (Some r')
        with \<open>f x = Some r\<close> Inr Cons.prems have "flatMapM f xs = Some (Inl e)"
          by (cases r') auto
        from Cons.IH[OF this] show ?thesis by auto
      qed
    qed
  qed
qed

lemma bind_case_sum_Inl:
  "Option.bind m (\<lambda>r. case r of Inl e \<Rightarrow> Some (Inl e) | Inr rest \<Rightarrow> Some (Inr (g rest)))
     = Some (Inl e) \<longleftrightarrow> m = Some (Inl e)"
proof (cases m)
  case None
  then show ?thesis by simp
next
  case (Some r)
  then show ?thesis by (cases r) auto
qed

lemma getImportSourceNames_error_aux:
  assumes "getImportSourceNames ext0 s0 b0 = Some y0"
  shows "\<forall>e. y0 = Inl e \<longrightarrow>
     e = TypeError \<and> (\<exists>t. (s0, t) \<in> (importEdges ext0 b0)\<^sup>* \<and> map_of (sources (input b0)) t = None)"
proof (rule getImportSourceNames.raw_induct[where P = "\<lambda>ext s b y.
    \<forall>e. y = Inl e \<longrightarrow>
      e = TypeError \<and> (\<exists>t. (s, t) \<in> (importEdges ext b)\<^sup>* \<and> map_of (sources (input b)) t = None)",
    OF _ assms], goal_cases)
  case (1 f ext s b y)
  let ?E = "importEdges ext b"
  show ?case
  proof (intro allI impI)
    fix e assume y: "y = Inl e"
    show "e = TypeError \<and> (\<exists>t. (s, t) \<in> ?E\<^sup>* \<and> map_of (sources (input b)) t = None)"
    proof (cases "map_of (sources (input b)) s")
      case None
      with 1(2) y have "e = TypeError" by simp
      with None show ?thesis by blast
    next
      case (Some src)
      let ?imps = "map (resolveImport ext s) (analyze ext (content src))"
      from 1(2) y Some have "flatMapM (\<lambda>i. f ext i b) ?imps = Some (Inl e)"
        by (simp add: Let_def bind_case_sum_Inl)
      from flatMapM_Inl[OF this] obtain i where i: "i \<in> set ?imps" "f ext i b = Some (Inl e)"
        by blast
      from 1(1)[OF i(2)] obtain t where
        t: "e = TypeError" "(i, t) \<in> ?E\<^sup>*" "map_of (sources (input b)) t = None" by blast
      from i(1) Some have "(s, i) \<in> ?E" by (auto simp: importEdges_iff)
      then have "(s, t) \<in> ?E\<^sup>*" using t(2) by (rule converse_rtrancl_into_rtrancl)
      with t show ?thesis by blast
    qed
  qed
qed

lemma getImportSourceNames_cycle_None:
  assumes "(s, t) \<in> (importEdges ext b)\<^sup>*" and "(t, t) \<in> (importEdges ext b)\<^sup>+"
    and "\<forall>u. (s, u) \<in> (importEdges ext b)\<^sup>* \<longrightarrow> map_of (sources (input b)) u \<noteq> None"
  shows "getImportSourceNames ext s b = None"
proof (cases "getImportSourceNames ext s b")
  case None
  then show ?thesis .
next
  case (Some y)
  show ?thesis
  proof (cases y)
    case (Inl e)
    with getImportSourceNames_error_aux[OF Some] assms(3) show ?thesis by blast
  next
    case (Inr xs)
    with getImportSourceNames_no_cycle_aux[OF Some] assms(1,2) show ?thesis by blast
  qed
qed



subsection \<open>Cyclic imports\<close>

lemma cyclic_edges:
  "(s, t) \<in> importEdges posixExternals cyclicBuild \<longleftrightarrow>
     (s = ''A.sol'' \<and> t = ''B.sol'') \<or> (s = ''B.sol'' \<and> t = ''A.sol'')"
  by (auto simp: importEdges_iff cyclicBuild_def buildOf_def posixExternals_def
       exampleAnalyze_def resolveImport_def split: if_splits)

lemma cyclic_reach:
  "(''A.sol'', u) \<in> (importEdges posixExternals cyclicBuild)\<^sup>* \<Longrightarrow> u = ''A.sol'' \<or> u = ''B.sol''"
  by (induction rule: rtrancl_induct) (auto simp: cyclic_edges)

lemma cyclic_cycle: "(''A.sol'', ''A.sol'') \<in> (importEdges posixExternals cyclicBuild)\<^sup>+"
proof -
  have "(''A.sol'', ''B.sol'') \<in> importEdges posixExternals cyclicBuild"
    and "(''B.sol'', ''A.sol'') \<in> importEdges posixExternals cyclicBuild"
    by (simp_all add: cyclic_edges)
  then show ?thesis by (rule trancl_into_trancl[OF r_into_trancl])
qed

lemma cyclic_present:
  "\<forall>u. (''A.sol'', u) \<in> (importEdges posixExternals cyclicBuild)\<^sup>* \<longrightarrow>
      map_of (sources (input cyclicBuild)) u \<noteq> None"
proof (intro allI impI)
  fix u assume "(''A.sol'', u) \<in> (importEdges posixExternals cyclicBuild)\<^sup>*"
  from cyclic_reach[OF this] show "map_of (sources (input cyclicBuild)) u \<noteq> None"
    by (elim disjE) (simp_all add: cyclicBuild_def buildOf_def)
qed

lemma cyclic_never_returns:
  "getImportSourceNames posixExternals ''A.sol'' cyclicBuild = None"
  by (rule getImportSourceNames_cycle_None[where t = "''A.sol''"])
     (simp, rule cyclic_cycle, rule cyclic_present)

text \<open>
  C2, as stated, fails: with \<open>A.sol\<close> importing \<open>B.sol\<close> and \<open>B.sol\<close> importing \<open>A.sol\<close>, the
  call for \<open>A.sol\<close> never returns.
\<close>

theorem getImportSourceNames_cyclic_counterexample:
  "getImportSourceNames posixExternals ''A.sol'' cyclicBuild = None"
  by (rule cyclic_never_returns)

text \<open>
  C2, amended. \<open>getImportSourceNames\<close> has no guard against cycles. When a source name on
  an import cycle can be reached from the root, the call returns no list of source names;
  when every reachable source name is moreover a key of \<open>sources\<close>, it never returns. When
  no cycle can be reached from the root, it returns: a list, or the \<open>TypeError\<close> of a
  source name that is not a key of \<open>sources\<close>.
\<close>

theorem getImportSourceNames_returns_iff_acyclic:
  "((\<exists>t. (s, t) \<in> (importEdges ext b)\<^sup>* \<and> (t, t) \<in> (importEdges ext b)\<^sup>+) \<longrightarrow>
      (\<forall>xs. getImportSourceNames ext s b \<noteq> Some (Inr xs))
      \<and> ((\<forall>u. (s, u) \<in> (importEdges ext b)\<^sup>* \<longrightarrow> map_of (sources (input b)) u \<noteq> None) \<longrightarrow>
           getImportSourceNames ext s b = None))
   \<and> (\<not> (\<exists>t. (s, t) \<in> (importEdges ext b)\<^sup>* \<and> (t, t) \<in> (importEdges ext b)\<^sup>+) \<longrightarrow>
      (\<exists>r. getImportSourceNames ext s b = Some r))"
proof (intro conjI impI allI)
  fix xs
  assume "\<exists>t. (s, t) \<in> (importEdges ext b)\<^sup>* \<and> (t, t) \<in> (importEdges ext b)\<^sup>+"
  then obtain t where t: "(s, t) \<in> (importEdges ext b)\<^sup>*" "(t, t) \<in> (importEdges ext b)\<^sup>+"
    by blast
  show "getImportSourceNames ext s b \<noteq> Some (Inr xs)"
  proof
    assume "getImportSourceNames ext s b = Some (Inr xs)"
    from getImportSourceNames_no_cycle_aux[OF this] t show False by blast
  qed
next
  assume "\<exists>t. (s, t) \<in> (importEdges ext b)\<^sup>* \<and> (t, t) \<in> (importEdges ext b)\<^sup>+"
    and p: "\<forall>u. (s, u) \<in> (importEdges ext b)\<^sup>* \<longrightarrow> map_of (sources (input b)) u \<noteq> None"
  then obtain t where t: "(s, t) \<in> (importEdges ext b)\<^sup>*" "(t, t) \<in> (importEdges ext b)\<^sup>+"
    by blast
  from t p show "getImportSourceNames ext s b = None"
    by (rule getImportSourceNames_cycle_None)
next
  assume "\<not> (\<exists>t. (s, t) \<in> (importEdges ext b)\<^sup>* \<and> (t, t) \<in> (importEdges ext b)\<^sup>+)"
  then have "\<forall>t. (s, t) \<in> (importEdges ext b)\<^sup>* \<longrightarrow> (t, t) \<notin> (importEdges ext b)\<^sup>+"
    by blast
  from getImportSourceNames_returns[OF this]
  show "\<exists>r. getImportSourceNames ext s b = Some r" by blast
qed

lemma acyclic_edges:
  "(s, t) \<in> importEdges posixExternals acyclicBuild \<longleftrightarrow> s = ''A.sol'' \<and> t = ''B.sol''"
proof -
  have r: "resolveImport posixExternals ''A.sol'' ''./B.sol'' = ''B.sol''" by code_simp
  have a: "analyze posixExternals c = exampleAnalyze c" for c
    by (simp add: posixExternals_def)
  show ?thesis
    by (auto simp: importEdges_iff acyclicBuild_def buildOf_def a exampleAnalyze_def r
          split: if_splits)
qed

lemma acyclic_no_cycle:
  "\<not> (\<exists>t. (''A.sol'', t) \<in> (importEdges posixExternals acyclicBuild)\<^sup>*
        \<and> (t, t) \<in> (importEdges posixExternals acyclicBuild)\<^sup>+)"
proof
  assume "\<exists>t. (''A.sol'', t) \<in> (importEdges posixExternals acyclicBuild)\<^sup>*
        \<and> (t, t) \<in> (importEdges posixExternals acyclicBuild)\<^sup>+"
  then obtain t where t: "(t, t) \<in> (importEdges posixExternals acyclicBuild)\<^sup>+" by blast
  from tranclD[OF t] have "t = ''A.sol''" by (auto simp: acyclic_edges)
  moreover from tranclD2[OF t] have "t = ''B.sol''" by (auto simp: acyclic_edges)
  ultimately show False by simp
qed

lemma acyclic_value:
  "getImportSourceNames posixExternals ''A.sol'' acyclicBuild = Some (Inr [''B.sol''])"
proof -
  have r: "resolveImport posixExternals ''A.sol'' ''./B.sol'' = ''B.sol''" by code_simp
  have lA: "map_of (sources (input acyclicBuild)) ''A.sol'' = Some \<lparr>content = ''import ./B.sol;''\<rparr>"
    and lB: "map_of (sources (input acyclicBuild)) ''B.sol'' = Some \<lparr>content = ''contract B {}''\<rparr>"
    by (simp_all add: acyclicBuild_def buildOf_def)
  have aA: "analyze posixExternals ''import ./B.sol;'' = [''./B.sol'']"
    and aB: "analyze posixExternals ''contract B {}'' = []"
    by (simp_all add: posixExternals_def exampleAnalyze_def)
  have B: "getImportSourceNames posixExternals ''B.sol'' acyclicBuild = Some (Inr [])"
    by (subst getImportSourceNames.simps) (simp add: lB aB)
  show ?thesis
    by (subst getImportSourceNames.simps) (simp add: lA aA r B)
qed

theorem getImportSourceNames_returns_iff_acyclic_witness:
  "getImportSourceNames posixExternals ''A.sol'' cyclicBuild = None
   \<and> getImportSourceNames posixExternals ''A.sol'' acyclicBuild = Some (Inr [''B.sol''])"
proof -
  note th = getImportSourceNames_returns_iff_acyclic
  have c: "\<exists>t. (''A.sol'', t) \<in> (importEdges posixExternals cyclicBuild)\<^sup>*
        \<and> (t, t) \<in> (importEdges posixExternals cyclicBuild)\<^sup>+"
    using cyclic_cycle by blast
  from th[of "''A.sol''" posixExternals cyclicBuild, THEN conjunct1, rule_format, OF c]
  have "(\<forall>u. (''A.sol'', u) \<in> (importEdges posixExternals cyclicBuild)\<^sup>* \<longrightarrow>
            map_of (sources (input cyclicBuild)) u \<noteq> None) \<longrightarrow>
         getImportSourceNames posixExternals ''A.sol'' cyclicBuild = None"
    by (rule conjunct2)
  from this cyclic_present
  have 1: "getImportSourceNames posixExternals ''A.sol'' cyclicBuild = None" by (rule mp)
  from th[of "''A.sol''" posixExternals acyclicBuild, THEN conjunct2, rule_format, OF acyclic_no_cycle]
  obtain r where "getImportSourceNames posixExternals ''A.sol'' acyclicBuild = Some r" ..
  with acyclic_value have 2: "getImportSourceNames posixExternals ''A.sol'' acyclicBuild
     = Some (Inr [''B.sol''])" by simp
  from 1 2 show ?thesis ..
qed

subsection \<open>Relative and non-relative imports\<close>

lemma isRelativeImport_iff:
  "isRelativeImport i \<longleftrightarrow>
     (\<exists>c r. separatorClass c \<and> (i = CHR ''.'' # c # r \<or> i = CHR ''.'' # CHR ''.'' # c # r))"
proof (cases i)
  case Nil
  then show ?thesis by simp
next
  case (Cons d i')
  show ?thesis
  proof (cases i')
    case Nil
    with Cons show ?thesis by simp
  next
    case (Cons c cs)
    with \<open>i = d # i'\<close> show ?thesis
      by (cases cs) (auto simp: separatorClass_def)
  qed
qed

lemma backslashesToSlashes_no_backslash: "CHR 0x5C \<notin> set (backslashesToSlashes s)"
  by (auto simp: backslashesToSlashes_def)

lemma specExample_closure:
  "getImportSourceNames posixExternals ''A.sol'' specExampleBuild = Some (Inl TypeError)"
proof -
  have rA: "resolveImport posixExternals ''A.sol'' ''./B.sol'' = ''B.sol''" by code_simp
  have rC: "resolveImport posixExternals ''B.sol'' ''C.sol'' = ''C.sol''" by code_simp
  have rE: "resolveImport posixExternals ''B.sol'' ''../D/E.sol'' = ''../D/E.sol''" by code_simp
  have lA: "map_of (sources (input specExampleBuild)) ''A.sol'' = Some \<lparr>content = ''import ./B.sol;''\<rparr>"
    and lB: "map_of (sources (input specExampleBuild)) ''B.sol''
       = Some \<lparr>content = ''import C.sol; import ../D/E.sol;''\<rparr>"
    and lC: "map_of (sources (input specExampleBuild)) ''C.sol'' = Some \<lparr>content = ''contract C {}''\<rparr>"
    and lE: "map_of (sources (input specExampleBuild)) ''../D/E.sol'' = None"
    by (simp_all add: specExampleBuild_def buildOf_def)
  have aA: "analyze posixExternals ''import ./B.sol;'' = [''./B.sol'']"
    and aB: "analyze posixExternals ''import C.sol; import ../D/E.sol;'' = [''C.sol'', ''../D/E.sol'']"
    and aC: "analyze posixExternals ''contract C {}'' = []"
    by (simp_all add: posixExternals_def exampleAnalyze_def)
  have C: "getImportSourceNames posixExternals ''C.sol'' specExampleBuild = Some (Inr [])"
    by (subst getImportSourceNames.simps) (simp add: lC aC)
  have E: "getImportSourceNames posixExternals ''../D/E.sol'' specExampleBuild = Some (Inl TypeError)"
    by (subst getImportSourceNames.simps) (simp add: lE)
  have B: "getImportSourceNames posixExternals ''B.sol'' specExampleBuild = Some (Inl TypeError)"
    by (subst getImportSourceNames.simps) (simp add: lB aB rC rE C E)
  show ?thesis
    by (subst getImportSourceNames.simps) (simp add: lA aA rA B)
qed

lemma parent_closure:
  "getImportSourceNames posixExternals ''A.sol'' parentBuild
     = Some (Inr [''B.sol'', ''C.sol'', ''../D/E.sol''])"
proof -
  have rA: "resolveImport posixExternals ''A.sol'' ''./B.sol'' = ''B.sol''" by code_simp
  have rC: "resolveImport posixExternals ''B.sol'' ''C.sol'' = ''C.sol''" by code_simp
  have rE: "resolveImport posixExternals ''B.sol'' ''../D/E.sol'' = ''../D/E.sol''" by code_simp
  have lA: "map_of (sources (input parentBuild)) ''A.sol'' = Some \<lparr>content = ''import ./B.sol;''\<rparr>"
    and lB: "map_of (sources (input parentBuild)) ''B.sol''
       = Some \<lparr>content = ''import C.sol; import ../D/E.sol;''\<rparr>"
    and lC: "map_of (sources (input parentBuild)) ''C.sol'' = Some \<lparr>content = ''contract C {}''\<rparr>"
    and lE: "map_of (sources (input parentBuild)) ''../D/E.sol'' = Some \<lparr>content = ''contract E {}''\<rparr>"
    by (simp_all add: parentBuild_def buildOf_def)
  have aA: "analyze posixExternals ''import ./B.sol;'' = [''./B.sol'']"
    and aB: "analyze posixExternals ''import C.sol; import ../D/E.sol;'' = [''C.sol'', ''../D/E.sol'']"
    and aC: "analyze posixExternals ''contract C {}'' = []"
    and aE: "analyze posixExternals ''contract E {}'' = []"
    by (simp_all add: posixExternals_def exampleAnalyze_def)
  have C: "getImportSourceNames posixExternals ''C.sol'' parentBuild = Some (Inr [])"
    by (subst getImportSourceNames.simps) (simp add: lC aC)
  have E: "getImportSourceNames posixExternals ''../D/E.sol'' parentBuild = Some (Inr [])"
    by (subst getImportSourceNames.simps) (simp add: lE aE)
  have B: "getImportSourceNames posixExternals ''B.sol'' parentBuild
      = Some (Inr [''C.sol'', ''../D/E.sol''])"
    by (subst getImportSourceNames.simps) (simp add: lB aB rC rE C E)
  show ?thesis
    by (subst getImportSourceNames.simps) (simp add: lA aA rA B)
qed

text \<open>
  The vertical bar is a member of the character class of the test, so \<open>.|B.sol\<close> counts
  as relative; and on a POSIX platform the backslash is no separator for \<open>path.join\<close>, so
  \<open>.\B.sol\<close> imported by \<open>A.sol\<close> resolves to \<open>./B.sol\<close>, not to \<open>B.sol\<close>.
\<close>

lemma isRelativeImport_vertical_bar: "isRelativeImport ''.|B.sol''"
  by code_simp

lemma resolveImport_backslash_posix:
  "resolveImport posixExternals ''A.sol''
     [CHR ''.'', CHR 0x5C, CHR ''B'', CHR ''.'', CHR ''s'', CHR ''o'', CHR ''l''] = ''./B.sol''"
  by code_simp

text \<open>
  C7, as stated, fails on its own example: \<open>A.sol\<close> lies in the directory \<open>.\<close>, so the import
  \<open>../D/E.sol\<close> of \<open>B.sol\<close> resolves to \<open>../D/E.sol\<close>. With the sources named as the
  example of the specification names them the call throws a \<open>TypeError\<close> for the missing source \<open>../D/E.sol\<close>, and where
  that source exists the closure holds \<open>../D/E.sol\<close>, not \<open>D/E.sol\<close>.
\<close>

theorem getImportSourceNames_example_counterexample:
  "getImportSourceNames posixExternals ''A.sol'' specExampleBuild = Some (Inl TypeError)
   \<and> getImportSourceNames posixExternals ''A.sol'' parentBuild
       = Some (Inr [''B.sol'', ''C.sol'', ''../D/E.sol''])
   \<and> ''D/E.sol'' \<notin> set [''B.sol'', ''C.sol'', ''../D/E.sol'']"
  using specExample_closure parent_closure by simp

text \<open>
  C7, amended. An import that begins with \<open>./\<close>, \<open>../\<close>, \<open>.\\<close> or \<open>..\\<close> is relative, and
  among the imports that do not begin with \<open>.|\<close> or \<open>..|\<close> no other is. A relative import
  becomes \<open>path.join(path.dirname(sourceName), i)\<close> with every backslash replaced by a
  slash; any other import is left as it is. With Node's POSIX \<open>path\<close>, for \<open>A.sol\<close> importing
  \<open>./B.sol\<close>, which imports \<open>C.sol\<close> and \<open>../D/E.sol\<close>, the closure of \<open>A.sol\<close> is \<open>B.sol\<close>,
  \<open>C.sol\<close>, \<open>../D/E.sol\<close>.
\<close>

theorem resolveImport_relative:
  "((\<exists>r. i = ''./'' @ r \<or> i = ''../'' @ r
         \<or> i = [CHR ''.'', CHR 0x5C] @ r \<or> i = [CHR ''.'', CHR ''.'', CHR 0x5C] @ r)
      \<longrightarrow> isRelativeImport i)
   \<and> (\<not> (\<exists>r. i = ''.|'' @ r \<or> i = ''..|'' @ r) \<and> isRelativeImport i \<longrightarrow>
        (\<exists>r. i = ''./'' @ r \<or> i = ''../'' @ r
           \<or> i = [CHR ''.'', CHR 0x5C] @ r \<or> i = [CHR ''.'', CHR ''.'', CHR 0x5C] @ r))
   \<and> (isRelativeImport i \<longrightarrow>
        resolveImport ext s i = backslashesToSlashes (path_join ext (path_dirname ext s) i)
        \<and> CHR 0x5C \<notin> set (resolveImport ext s i))
   \<and> (\<not> isRelativeImport i \<longrightarrow> resolveImport ext s i = i)
   \<and> getImportSourceNames posixExternals ''A.sol'' parentBuild
       = Some (Inr [''B.sol'', ''C.sol'', ''../D/E.sol''])"
proof (intro conjI impI)
  assume "\<exists>r. i = ''./'' @ r \<or> i = ''../'' @ r
         \<or> i = [CHR ''.'', CHR 0x5C] @ r \<or> i = [CHR ''.'', CHR ''.'', CHR 0x5C] @ r"
  then show "isRelativeImport i"
    by (auto simp: separatorClass_def)
next
  assume "\<not> (\<exists>r. i = ''.|'' @ r \<or> i = ''..|'' @ r) \<and> isRelativeImport i"
  then show "\<exists>r. i = ''./'' @ r \<or> i = ''../'' @ r
           \<or> i = [CHR ''.'', CHR 0x5C] @ r \<or> i = [CHR ''.'', CHR ''.'', CHR 0x5C] @ r"
    unfolding isRelativeImport_iff by (auto simp: separatorClass_def)
next
  assume "isRelativeImport i"
  then show "resolveImport ext s i = backslashesToSlashes (path_join ext (path_dirname ext s) i)"
    by (simp add: resolveImport_def)
  then show "CHR 0x5C \<notin> set (resolveImport ext s i)"
    by (simp add: backslashesToSlashes_no_backslash)
next
  assume "\<not> isRelativeImport i"
  then show "resolveImport ext s i = i" by (simp add: resolveImport_def)
next
  show "getImportSourceNames posixExternals ''A.sol'' parentBuild
       = Some (Inr [''B.sol'', ''C.sol'', ''../D/E.sol''])"
    by (rule parent_closure)
qed

theorem resolveImport_relative_witness:
  "isRelativeImport ''../D/E.sol''
   \<and> resolveImport posixExternals ''contracts/B.sol'' ''../D/E.sol'' = ''D/E.sol''
   \<and> \<not> isRelativeImport ''C.sol''
   \<and> resolveImport posixExternals ''contracts/B.sol'' ''C.sol'' = ''C.sol''"
proof -
  note th = resolveImport_relative[of _ posixExternals "''contracts/B.sol''"]
  have h: "\<exists>r. ''../D/E.sol'' = ''./'' @ r \<or> ''../D/E.sol'' = ''../'' @ r
         \<or> ''../D/E.sol'' = [CHR ''.'', CHR 0x5C] @ r
         \<or> ''../D/E.sol'' = [CHR ''.'', CHR ''.'', CHR 0x5C] @ r"
    by simp
  from th[of "''../D/E.sol''", THEN conjunct1, rule_format, OF h]
  have 1: "isRelativeImport ''../D/E.sol''" .
  from th[of "''../D/E.sol''", THEN conjunct2, THEN conjunct2, THEN conjunct1, rule_format, OF 1]
  have "resolveImport posixExternals ''contracts/B.sol'' ''../D/E.sol''
      = backslashesToSlashes (path_join posixExternals (path_dirname posixExternals ''contracts/B.sol'')
          ''../D/E.sol'')" by (rule conjunct1)
  also have "\<dots> = ''D/E.sol''" by code_simp
  finally have 2: "resolveImport posixExternals ''contracts/B.sol'' ''../D/E.sol'' = ''D/E.sol''" .
  have 3: "\<not> isRelativeImport ''C.sol''" by simp
  from th[of "''C.sol''", THEN conjunct2, THEN conjunct2, THEN conjunct2, THEN conjunct1,
      rule_format, OF 3]
  have 4: "resolveImport posixExternals ''contracts/B.sol'' ''C.sol'' = ''C.sol''" .
  from 1 2 3 4 show ?thesis by (intro conjI)
qed

section \<open>Conversion of one execution state: the sources and the store\<close>

lemma getImportSourceNames_present_aux:
  assumes "getImportSourceNames ext0 s0 b0 = Some y0"
  shows "\<forall>xs. y0 = Inr xs \<longrightarrow>
     (\<forall>t. (s0, t) \<in> (importEdges ext0 b0)\<^sup>* \<longrightarrow> map_of (sources (input b0)) t \<noteq> None)"
proof (rule getImportSourceNames.raw_induct[where P = "\<lambda>ext s b y.
    \<forall>xs. y = Inr xs \<longrightarrow>
      (\<forall>t. (s, t) \<in> (importEdges ext b)\<^sup>* \<longrightarrow> map_of (sources (input b)) t \<noteq> None)", OF _ assms],
    goal_cases)
  case (1 f ext s b y)
  let ?E = "importEdges ext b"
  show ?case
  proof (intro allI impI)
    fix xs t
    assume "y = Inr xs" and st: "(s, t) \<in> ?E\<^sup>*"
    with 1(2) have body: "(case map_of (sources (input b)) s of
        None \<Rightarrow> Some (Inl TypeError)
      | Some src \<Rightarrow>
          (let importSources = map (resolveImport ext s) (analyze ext (content src))
           in Option.bind (flatMapM (\<lambda>i. f ext i b) importSources)
                (\<lambda>r. case r of
                   Inl e \<Rightarrow> Some (Inl e)
                 | Inr rest \<Rightarrow> Some (Inr (importSources @ rest))))) = Some (Inr xs)"
      by simp
    from getImportSourceNames_body_Inr[OF body] obtain src rest where
      src: "map_of (sources (input b)) s = Some src"
      and fm: "flatMapM (\<lambda>i. f ext i b) (map (resolveImport ext s) (analyze ext (content src))) = Some (Inr rest)"
      by (elim exE conjE)
    let ?imps = "map (resolveImport ext s) (analyze ext (content src))"
    have succ: "set ?imps = {t. (s, t) \<in> ?E}"
      using src by (auto simp: importEdges_iff)
    from flatMapM_Inr[OF fm] have
      all: "\<forall>i\<in>set ?imps. \<exists>zs. f ext i b = Some (Inr zs)" by simp
    from st have "t = s \<or> (s, t) \<in> ?E\<^sup>+" by (auto simp: rtrancl_eq_or_trancl)
    then show "map_of (sources (input b)) t \<noteq> None"
    proof
      assume "t = s"
      with src show ?thesis by simp
    next
      assume "(s, t) \<in> ?E\<^sup>+"
      then obtain i where i: "(s, i) \<in> ?E" "(i, t) \<in> ?E\<^sup>*" by (blast dest: tranclD)
      from i(1) succ have "i \<in> set ?imps" by simp
      with all obtain zs where zs: "f ext i b = Some (Inr zs)" by blast
      from 1(1)[OF zs] i(2) show ?thesis by simp
    qed
  qed
qed

lemma flatMapM_transfer:
  "flatMapM f xs = Some res \<Longrightarrow> (\<And>x y. f x = Some y \<Longrightarrow> g x = Some y) \<Longrightarrow>
   flatMapM g xs = Some res"
proof (induction xs arbitrary: res)
  case Nil
  then show ?case by simp
next
  case (Cons x xs)
  from Cons.prems(1) obtain y where y: "f x = Some y"
    by (cases "f x") simp_all
  then have gy: "g x = Some y" by (rule Cons.prems(2))
  show ?case
  proof (cases y)
    case (Inl e)
    with y Cons.prems(1) have "res = Inl e" by simp
    with gy Inl show ?thesis by simp
  next
    case (Inr zs)
    with y Cons.prems(1) obtain r' where r': "flatMapM f xs = Some r'"
      by (cases "flatMapM f xs") simp_all
    from Cons.IH[OF r' Cons.prems(2)] have "flatMapM g xs = Some r'" .
    with r' y gy Inr Cons.prems(1) show ?thesis by simp
  qed
qed

lemma getImportSourceNames_sources_aux:
  assumes "getImportSourceNames ext0 s0 b0 = Some y0"
  shows "\<forall>b' :: BuildInfo. sources (input b') = sources (input b0) \<longrightarrow>
     getImportSourceNames ext0 s0 b' = Some y0"
proof (rule getImportSourceNames.raw_induct[where P = "\<lambda>ext s b y.
    \<forall>b' :: BuildInfo. sources (input b') = sources (input b) \<longrightarrow>
      getImportSourceNames ext s b' = Some y",
    OF _ assms], goal_cases)
  case (1 f ext s b y)
  show ?case
  proof (intro allI impI)
    fix b' :: BuildInfo assume eq: "sources (input b') = sources (input b)"
    show "getImportSourceNames ext s b' = Some y"
    proof (cases "map_of (sources (input b)) s")
      case None
      with 1(2) have "y = Inl TypeError" by simp
      with None eq show ?thesis by (subst getImportSourceNames.simps) simp
    next
      case (Some src)
      let ?imps = "map (resolveImport ext s) (analyze ext (content src))"
      let ?k = "\<lambda>r. case r of Inl e \<Rightarrow> Some (Inl e) | Inr rest \<Rightarrow> Some (Inr (?imps @ rest))"
      from 1(2) Some have "Option.bind (flatMapM (\<lambda>i. f ext i b) ?imps) ?k = Some y"
        by (simp add: Let_def)
      then obtain r where r: "flatMapM (\<lambda>i. f ext i b) ?imps = Some r" and k: "?k r = Some y"
        by (auto simp: Option.bind_eq_Some_conv)
      have "flatMapM (\<lambda>i. getImportSourceNames ext i b') ?imps = Some r"
        using r
      proof (rule flatMapM_transfer)
        fix x y' assume "f ext x b = Some y'"
        from 1(1)[OF this] eq show "getImportSourceNames ext x b' = Some y'" by simp
      qed
      with k Some eq show ?thesis
        by (subst getImportSourceNames.simps) (simp add: Let_def)
    qed
  qed
qed

lemma getImportSourceNames_sources:
  assumes "sources (input b') = sources (input b)"
  shows "getImportSourceNames ext s b' = getImportSourceNames ext s b"
proof (cases "getImportSourceNames ext s b")
  case (Some y)
  from getImportSourceNames_sources_aux[OF this] assms show ?thesis by (simp add: Some)
next
  case None
  show ?thesis
  proof (cases "getImportSourceNames ext s b'")
    case None
    with \<open>getImportSourceNames ext s b = None\<close> show ?thesis by simp
  next
    case (Some y)
    from getImportSourceNames_sources_aux[OF this] assms
    have "getImportSourceNames ext s b = Some y" by simp
    with None show ?thesis by simp
  qed
qed

lemma importEdges_sources:
  "sources (input b') = sources (input b) \<Longrightarrow> importEdges ext b' = importEdges ext b"
  for b b' :: BuildInfo
  by (simp add: importEdges_def)

lemma prepareInputBasedOn_Inr:
  assumes "prepareInputBasedOn b artifact libs = Inr (prepared, b1)"
  shows "prepared = input b1 \<and> sources (input b1) = sources (input b)
    \<and> language (input b1) = language (input b)
    \<and> solcLongVersion b1 = solcLongVersion b"
proof (cases "resolveLibraryInfoForArtifact artifact libs")
  case (Inl e)
  with assms show ?thesis by (simp add: prepareInputBasedOn_def)
next
  case (Inr r)
  with assms show ?thesis
    by (cases r) (auto simp: prepareInputBasedOn_def Let_def)
qed

lemma pruneUnrelatedSources_Inr:
  assumes "pruneUnrelatedSources ext artifact b1 = Some (Inr b2)"
  shows "\<exists>closure. getImportSourceNames ext (sourceName artifact) b1 = Some (Inr closure)
    \<and> sources (input b2) =
        filter (\<lambda>(source, src). source \<in> set (sourceName artifact # closure)) (sources (input b1))
    \<and> settings (input b2) = settings (input b1)
    \<and> language (input b2) = language (input b1)
    \<and> solcLongVersion b2 = solcLongVersion b1"
proof (cases "getImportSourceNames ext (sourceName artifact) b1")
  case None
  with assms show ?thesis by (simp add: pruneUnrelatedSources_def)
next
  case (Some y)
  with assms show ?thesis
    by (cases y) (auto simp: pruneUnrelatedSources_def Let_def)
qed

text \<open>What a conversion that returns a \<open>VerifyInfo\<close> has done.\<close>

lemma convertExStateToVerifyInfo_Inr:
  assumes read: "readBuildInfo loader (artifactId ex) h = (r, h1)"
    and conv: "convertExStateToVerifyInfo ext ex loader incl h = Some (Inr vi, h')"
  shows "\<exists>prepared b1 b2.
      prepareInputBasedOn (objects h1 r) (loadArtifact loader (artifactId ex)) (exLibraries ex)
        = Inr (prepared, b1)
    \<and> (if incl then b2 = b1
        else pruneUnrelatedSources ext (loadArtifact loader (artifactId ex)) b1 = Some (Inr b2))
    \<and> sourceCode vi = input b2
    \<and> result ex = Some (SUCCESS_RESULT (address vi))
    \<and> name vi = sourceName (loadArtifact loader (artifactId ex)) @ '':'' @ contractName ex
    \<and> h' = h1\<lparr>objects := (objects h1)(r := b2)\<rparr>"
proof -
  let ?a = "loadArtifact loader (artifactId ex)"
  from conv read obtain addr where res: "result ex = Some (SUCCESS_RESULT addr)"
    by (cases "result ex"; cases "the (result ex)")
       (simp_all add: convertExStateToVerifyInfo_def Let_def)
  from conv read res obtain prepared b1 where
    prep: "prepareInputBasedOn (objects h1 r) ?a (exLibraries ex) = Inr (prepared, b1)"
    by (cases "prepareInputBasedOn (objects h1 r) ?a (exLibraries ex)")
       (auto simp: convertExStateToVerifyInfo_def Let_def)
  show ?thesis
  proof (cases incl)
    case True
    with conv read res prep show ?thesis
      by (auto simp: convertExStateToVerifyInfo_def Let_def)
  next
    case False
    with conv read res prep obtain b2 where
      pr: "pruneUnrelatedSources ext ?a b1 = Some (Inr b2)"
      by (cases "pruneUnrelatedSources ext ?a b1"; cases "the (pruneUnrelatedSources ext ?a b1)")
         (auto simp: convertExStateToVerifyInfo_def Let_def)
    with conv read res prep False show ?thesis
      by (auto simp: convertExStateToVerifyInfo_def Let_def)
  qed
qed

lemma filter_keys_subset:
  "S \<subseteq> fst ` set xs \<Longrightarrow> fst ` set (filter (\<lambda>(k, v). k \<in> S) xs) = S"
  by (induction xs) force+

text \<open>
  The sources of a conversion that returns a \<open>VerifyInfo\<close>: with
  \<open>includeUnrelatedContracts = false\<close> the keys are the artifact's \<open>sourceName\<close> and the
  source names that \<open>getImportSourceNames\<close> returns for it, which are the source names
  reachable from it along imports, and the entries are those of the build's \<open>sources\<close>
  with these keys; with \<open>true\<close> the \<open>sources\<close> are those of the build. The build is the
  object that \<open>readBuildInfo\<close> returned.
\<close>

lemma convertExStateToVerifyInfo_sources_of_result:
  assumes read: "readBuildInfo loader (artifactId ex) h = (r, h1)"
    and conv: "convertExStateToVerifyInfo ext ex loader incl h = Some (Inr vi, h')"
  shows "(\<not> incl \<longrightarrow>
      (\<exists>closure.
          getImportSourceNames ext (sourceName (loadArtifact loader (artifactId ex))) (objects h1 r)
            = Some (Inr closure)
        \<and> fst ` set (sources (sourceCode vi))
            = insert (sourceName (loadArtifact loader (artifactId ex))) (set closure)
        \<and> sources (sourceCode vi)
            = filter (\<lambda>(source, src).
                  source \<in> insert (sourceName (loadArtifact loader (artifactId ex))) (set closure))
                (sources (input (objects h1 r))))
      \<and> fst ` set (sources (sourceCode vi))
          = insert (sourceName (loadArtifact loader (artifactId ex)))
              {t. (sourceName (loadArtifact loader (artifactId ex)), t)
                    \<in> (importEdges ext (objects h1 r))\<^sup>+})
    \<and> (incl \<longrightarrow> sources (sourceCode vi) = sources (input (objects h1 r)))"
proof -
  let ?a = "loadArtifact loader (artifactId ex)"
  let ?sn = "sourceName ?a"
  let ?b = "objects h1 r"
  from convertExStateToVerifyInfo_Inr[OF read conv] obtain prepared b1 b2 where
    prep: "prepareInputBasedOn ?b ?a (exLibraries ex) = Inr (prepared, b1)"
    and pr: "if incl then b2 = b1 else pruneUnrelatedSources ext ?a b1 = Some (Inr b2)"
    and sc: "sourceCode vi = input b2"
    by (elim exE conjE)
  from prepareInputBasedOn_Inr[OF prep] have s1: "sources (input b1) = sources (input ?b)"
    by simp
  show ?thesis
  proof (intro conjI impI)
    assume incl
    with pr sc s1 show "sources (sourceCode vi) = sources (input ?b)" by simp
  next
    assume "\<not> incl"
    with pr have "pruneUnrelatedSources ext ?a b1 = Some (Inr b2)" by simp
    from pruneUnrelatedSources_Inr[OF this] obtain closure where
      g1: "getImportSourceNames ext ?sn b1 = Some (Inr closure)"
      and f: "sources (input b2) =
        filter (\<lambda>(source, src). source \<in> set (?sn # closure)) (sources (input b1))"
      by (elim exE conjE)
    from g1 have g: "getImportSourceNames ext ?sn ?b = Some (Inr closure)"
      by (simp add: getImportSourceNames_sources[OF s1])
    have cl: "set closure = {t. (?sn, t) \<in> (importEdges ext ?b)\<^sup>+}"
      using g by (rule getImportSourceNames_closure)
    have filt: "sources (sourceCode vi) =
        filter (\<lambda>(source, src). source \<in> insert ?sn (set closure)) (sources (input ?b))"
      using f sc s1 by simp
    have "insert ?sn (set closure) \<subseteq> fst ` set (sources (input ?b))"
    proof
      fix t assume "t \<in> insert ?sn (set closure)"
      with cl have "(?sn, t) \<in> (importEdges ext ?b)\<^sup>*"
        by (auto intro: trancl_into_rtrancl)
      with getImportSourceNames_present_aux[OF g] have "map_of (sources (input ?b)) t \<noteq> None"
        by simp
      then show "t \<in> fst ` set (sources (input ?b))"
        by (simp add: map_of_eq_None_iff)
    qed
    then have keys: "fst ` set (sources (sourceCode vi)) = insert ?sn (set closure)"
      unfolding filt by (rule filter_keys_subset)
    from g keys filt show "\<exists>closure.
          getImportSourceNames ext ?sn ?b = Some (Inr closure)
        \<and> fst ` set (sources (sourceCode vi)) = insert ?sn (set closure)
        \<and> sources (sourceCode vi)
            = filter (\<lambda>(source, src). source \<in> insert ?sn (set closure)) (sources (input ?b))"
      by (intro exI[of _ closure] conjI)
    from keys cl show "fst ` set (sources (sourceCode vi))
        = insert ?sn {t. (?sn, t) \<in> (importEdges ext ?b)\<^sup>+}"
      by simp
  qed
qed

text \<open>
  A conversion writes to the \<open>BuildInfo\<close> object that \<open>readBuildInfo\<close> returned for it, in
  place: after a conversion that returns a \<open>VerifyInfo\<close>, the \<open>input\<close> of that object is the
  compiler input that was serialised. It allocates nothing and leaves every other object
  of the store as it was.
\<close>

lemma convertExStateToVerifyInfo_frame:
  assumes read: "readBuildInfo loader (artifactId ex) h = (r, h1)"
    and conv: "convertExStateToVerifyInfo ext ex loader incl h = Some (res, h')"
  shows "allocated h' = allocated h1
    \<and> (\<forall>r'. r' \<noteq> r \<longrightarrow> objects h' r' = objects h1 r')
    \<and> (\<forall>vi. res = Inr vi \<longrightarrow> input (objects h' r) = sourceCode vi)"
proof (cases res)
  case (Inr vi)
  with conv have "convertExStateToVerifyInfo ext ex loader incl h = Some (Inr vi, h')" by simp
  from convertExStateToVerifyInfo_Inr[OF read this] obtain b2 where
    "sourceCode vi = input b2" "h' = h1\<lparr>objects := (objects h1)(r := b2)\<rparr>"
    by (elim exE conjE)
  with Inr show ?thesis by simp
next
  case (Inl e)
  let ?a = "loadArtifact loader (artifactId ex)"
  have "h' = h1 \<or> (\<exists>b1. h' = h1\<lparr>objects := (objects h1)(r := b1)\<rparr>)"
  proof (cases "result ex")
    case None
    with conv read Inl show ?thesis
      by (simp add: convertExStateToVerifyInfo_def Let_def)
  next
    case (Some res')
    show ?thesis
    proof (cases res')
      case (OTHER_RESULT k)
      with Some conv read Inl show ?thesis
        by (simp add: convertExStateToVerifyInfo_def Let_def)
    next
      case (SUCCESS_RESULT addr)
      show ?thesis
      proof (cases "prepareInputBasedOn (objects h1 r) ?a (exLibraries ex)")
        case (Inl e')
        with Some SUCCESS_RESULT conv read \<open>res = Inl e\<close> show ?thesis
          by (simp add: convertExStateToVerifyInfo_def Let_def)
      next
        case (Inr p)
        obtain prepared b1 where p: "p = (prepared, b1)" by (cases p)
        with Inr Some SUCCESS_RESULT conv read \<open>res = Inl e\<close>
        have "h' = h1\<lparr>objects := (objects h1)(r := b1)\<rparr>"
          by (auto simp: convertExStateToVerifyInfo_def Let_def
                split: if_splits option.splits sum.splits)
        then show ?thesis by blast
      qed
    qed
  qed
  with Inl show ?thesis by auto
qed


subsection \<open>When a conversion returns\<close>

lemma getImportSourceNames_Inr_iff:
  "(\<exists>xs. getImportSourceNames ext s b = Some (Inr xs)) \<longleftrightarrow>
     (\<forall>t. (s, t) \<in> (importEdges ext b)\<^sup>* \<longrightarrow>
        (t, t) \<notin> (importEdges ext b)\<^sup>+ \<and> map_of (sources (input b)) t \<noteq> None)"
proof
  assume "\<exists>xs. getImportSourceNames ext s b = Some (Inr xs)"
  then obtain xs where g: "getImportSourceNames ext s b = Some (Inr xs)" ..
  from getImportSourceNames_no_cycle_aux[OF g] getImportSourceNames_present_aux[OF g]
  show "\<forall>t. (s, t) \<in> (importEdges ext b)\<^sup>* \<longrightarrow>
        (t, t) \<notin> (importEdges ext b)\<^sup>+ \<and> map_of (sources (input b)) t \<noteq> None"
    by simp
next
  assume a: "\<forall>t. (s, t) \<in> (importEdges ext b)\<^sup>* \<longrightarrow>
        (t, t) \<notin> (importEdges ext b)\<^sup>+ \<and> map_of (sources (input b)) t \<noteq> None"
  then have "\<forall>t. (s, t) \<in> (importEdges ext b)\<^sup>* \<longrightarrow> (t, t) \<notin> (importEdges ext b)\<^sup>+"
    by simp
  from getImportSourceNames_returns[OF this] obtain y where
    y: "getImportSourceNames ext s b = Some y" by auto
  show "\<exists>xs. getImportSourceNames ext s b = Some (Inr xs)"
  proof (cases y)
    case (Inl e)
    with getImportSourceNames_error_aux[OF y] a show ?thesis by blast
  next
    case (Inr xs)
    with y show ?thesis by simp
  qed
qed

lemma prepareInputBasedOn_complete:
  assumes "librariesComplete artifact libs"
  shows "\<exists>b1. prepareInputBasedOn b artifact libs = Inr (input b1, b1)
     \<and> sources (input b1) = sources (input b)"
proof -
  from assms have "\<forall>(s, refs)\<in>set (linkReferences artifact).
      \<forall>l\<in>fst ` set refs. getProperty libs l \<noteq> None"
    by (fastforce simp: librariesComplete_iff getProperty_own_iff)
  from sources_all_present[OF this, of "[]"] obtain acc where
    "resolveLibraryInfo_sources (linkReferences artifact) libs [] = Inr acc"
    by (elim exE conjE)
  then show ?thesis
    by (simp add: prepareInputBasedOn_def resolveLibraryInfoForArtifact_def Let_def)
qed

lemma pruneUnrelatedSources_eq_None:
  "pruneUnrelatedSources ext artifact b = None \<longleftrightarrow>
     getImportSourceNames ext (sourceName artifact) b = None"
  by (auto simp: pruneUnrelatedSources_def Let_def split: option.splits sum.splits)

lemma pruneUnrelatedSources_Inr_iff:
  "(\<exists>b2. pruneUnrelatedSources ext artifact b = Some (Inr b2)) \<longleftrightarrow>
     (\<exists>xs. getImportSourceNames ext (sourceName artifact) b = Some (Inr xs))"
  by (auto simp: pruneUnrelatedSources_def Let_def split: option.splits sum.splits)

lemma convertExStateToVerifyInfo_included:
  assumes read: "readBuildInfo loader (artifactId ex) h = (r, h1)"
    and res: "result ex = Some (SUCCESS_RESULT addr)"
    and prep: "prepareInputBasedOn (objects h1 r) (loadArtifact loader (artifactId ex))
        (exLibraries ex) = Inr (prepared, b1)"
  shows "\<exists>vi h'. convertExStateToVerifyInfo ext ex loader True h = Some (Inr vi, h')
     \<and> sourceCode vi = input b1"
  using assms by (auto simp: convertExStateToVerifyInfo_def Let_def)

lemma convertExStateToVerifyInfo_pruned:
  assumes read: "readBuildInfo loader (artifactId ex) h = (r, h1)"
    and res: "result ex = Some (SUCCESS_RESULT addr)"
    and prep: "prepareInputBasedOn (objects h1 r) (loadArtifact loader (artifactId ex))
        (exLibraries ex) = Inr (prepared, b1)"
  shows "(convertExStateToVerifyInfo ext ex loader False h = None \<longleftrightarrow>
        pruneUnrelatedSources ext (loadArtifact loader (artifactId ex)) b1 = None)
    \<and> ((\<exists>vi h'. convertExStateToVerifyInfo ext ex loader False h = Some (Inr vi, h')) \<longleftrightarrow>
        (\<exists>b2. pruneUnrelatedSources ext (loadArtifact loader (artifactId ex)) b1 = Some (Inr b2)))"
proof (cases "pruneUnrelatedSources ext (loadArtifact loader (artifactId ex)) b1")
  case None
  with assms show ?thesis by (simp add: convertExStateToVerifyInfo_def Let_def)
next
  case (Some y)
  with assms show ?thesis
    by (cases y) (auto simp: convertExStateToVerifyInfo_def Let_def)
qed


subsection \<open>The conversions of the examples\<close>

lemma mixed_closure_A:
  "getImportSourceNames posixExternals ''A.sol'' mixedBuild = Some (Inr [''B.sol''])"
proof -
  have r: "resolveImport posixExternals ''A.sol'' ''./B.sol'' = ''B.sol''" by code_simp
  have lA: "map_of (sources (input mixedBuild)) ''A.sol'' = Some \<lparr>content = ''import ./B.sol;''\<rparr>"
    and lB: "map_of (sources (input mixedBuild)) ''B.sol'' = Some \<lparr>content = ''contract B {}''\<rparr>"
    by (simp_all add: mixedBuild_def buildOf_def)
  have aA: "analyze posixExternals ''import ./B.sol;'' = [''./B.sol'']"
    and aB: "analyze posixExternals ''contract B {}'' = []"
    by (simp_all add: posixExternals_def exampleAnalyze_def)
  have B: "getImportSourceNames posixExternals ''B.sol'' mixedBuild = Some (Inr [])"
    by (subst getImportSourceNames.simps) (simp add: lB aB)
  show ?thesis
    by (subst getImportSourceNames.simps) (simp add: lA aA r B)
qed

lemma mixed_closure_U:
  "getImportSourceNames posixExternals ''Unrelated.sol'' mixedBuild = Some (Inr [])"
proof -
  have l: "map_of (sources (input mixedBuild)) ''Unrelated.sol'' = Some \<lparr>content = ''contract U {}''\<rparr>"
    by (simp add: mixedBuild_def buildOf_def)
  have a: "analyze posixExternals ''contract U {}'' = []"
    by (simp add: posixExternals_def exampleAnalyze_def)
  show ?thesis
    by (subst getImportSourceNames.simps) (simp add: l a)
qed

lemma prepare_example:
  "prepareInputBasedOn b (exampleArtifact aid) [] = Inr (input b, b)"
  by (simp add: prepareInputBasedOn_def resolveLibraryInfoForArtifact_def exampleArtifact_def)

lemma prune_mixed_A:
  "pruneUnrelatedSources posixExternals (exampleArtifact ''Mod#A'') mixedBuild = Some (Inr prunedA)"
proof -
  have sn: "sourceName (exampleArtifact ''Mod#A'') = ''A.sol''" by (simp add: exampleArtifact_def)
  show ?thesis
    unfolding pruneUnrelatedSources_def sn mixed_closure_A
    by (simp add: mixedBuild_def prunedA_def buildOf_def)
qed

lemma prune_mixed_U:
  "pruneUnrelatedSources posixExternals (exampleArtifact ''Mod#U'') mixedBuild = Some (Inr prunedU)"
proof -
  have sn: "sourceName (exampleArtifact ''Mod#U'') = ''Unrelated.sol''"
    by (simp add: exampleArtifact_def)
  show ?thesis
    unfolding pruneUnrelatedSources_def sn mixed_closure_U
    by (simp add: mixedBuild_def prunedU_def buildOf_def)
qed

lemma convert_A_fresh:
  "convertExStateToVerifyInfo posixExternals exampleA freshLoader False exampleHeap
     = Some (Inr verifyInfoA, heapFresh)"
proof -
  have enc: "encodeDeploymentArguments posixExternals a [] = ''''" for a
    by (simp add: posixExternals_def)
  have sn: "sourceName (exampleArtifact ''Mod#A'') = ''A.sol''" by (simp add: exampleArtifact_def)
  have v: "solcLongVersion prunedA = ''0.8.19+commit.7dd6d404''"
    by (simp add: prunedA_def buildOf_def)
  show ?thesis
    by (simp add: convertExStateToVerifyInfo_def freshLoader_def fileDeploymentLoader_def exampleA_def prepare_example
          prune_mixed_A enc sn v startsWith_def verifyInfoA_def heapFresh_def exampleHeap_def)
qed

lemma convert_U_fresh:
  "convertExStateToVerifyInfo posixExternals exampleU freshLoader False heapFresh
     = Some (Inr verifyInfoU, heapFresh2)"
proof -
  have enc: "encodeDeploymentArguments posixExternals a [] = ''''" for a
    by (simp add: posixExternals_def)
  have sn: "sourceName (exampleArtifact ''Mod#U'') = ''Unrelated.sol''"
    by (simp add: exampleArtifact_def)
  have v: "solcLongVersion prunedU = ''0.8.19+commit.7dd6d404''"
    by (simp add: prunedU_def buildOf_def)
  show ?thesis
    by (simp add: convertExStateToVerifyInfo_def freshLoader_def fileDeploymentLoader_def exampleU_def prepare_example
          prune_mixed_U enc sn v startsWith_def verifyInfoU_def heapFresh_def heapFresh2_def
          fun_upd_twist)
qed

lemma convert_A_cyclic:
  "convertExStateToVerifyInfo posixExternals exampleA cyclicLoader False exampleHeap = None"
proof -
  have sn: "sourceName (exampleArtifact ''Mod#A'') = ''A.sol''" by (simp add: exampleArtifact_def)
  have "pruneUnrelatedSources posixExternals (exampleArtifact ''Mod#A'') cyclicBuild = None"
    by (simp add: pruneUnrelatedSources_eq_None sn cyclic_never_returns)
  then show ?thesis
    by (simp add: convertExStateToVerifyInfo_def cyclicLoader_def fileDeploymentLoader_def
          exampleA_def prepare_example)
qed

lemma convert_A_cyclic_included:
  "map_option (\<lambda>p. map_sum id (\<lambda>vi. map fst (sources (sourceCode vi))) (fst p))
     (convertExStateToVerifyInfo posixExternals exampleA cyclicLoader True exampleHeap)
     = Some (Inr [''A.sol'', ''B.sol''])"
  by (simp add: convertExStateToVerifyInfo_def cyclicLoader_def fileDeploymentLoader_def
        exampleA_def prepare_example cyclicBuild_def buildOf_def Let_def startsWith_def)

subsection \<open>The sources of the serialised compiler input\<close>

text \<open>
  C1, as stated, fails for a record whose source lies on an import cycle: with
  \<open>includeUnrelatedContracts = false\<close> its conversion never returns, so there is no
  \<open>VerifyInfo\<close> and no \<open>sources\<close> mapping, while with \<open>true\<close> the same record is converted
  and keeps both sources.
\<close>

theorem convertExStateToVerifyInfo_cyclic_counterexample:
  "convertExStateToVerifyInfo posixExternals exampleA cyclicLoader False exampleHeap = None
   \<and> map_option (\<lambda>p. map_sum id (\<lambda>vi. map fst (sources (sourceCode vi))) (fst p))
       (convertExStateToVerifyInfo posixExternals exampleA cyclicLoader True exampleHeap)
       = Some (Inr [''A.sol'', ''B.sol''])"
  using convert_A_cyclic convert_A_cyclic_included by (rule conjI)

text \<open>
  C1, amended. For a record and the build that \<open>readBuildInfo\<close> returned for it. Whenever
  the conversion with \<open>includeUnrelatedContracts = false\<close> returns a \<open>VerifyInfo\<close>, the keys
  of \<open>sources\<close> in the compiler input that is serialised are the artifact's \<open>sourceName\<close>
  and the source names that \<open>getImportSourceNames\<close> returns for it, which are the source
  names reachable from it along imports, and the entries are those of the build with these
  keys; whenever the conversion with \<open>true\<close> returns a \<open>VerifyInfo\<close>, the \<open>sources\<close> are
  those of the build, unchanged. When the record has a successful result and its
  referenced libraries all have addresses: the conversion with \<open>false\<close> returns a
  \<open>VerifyInfo\<close> exactly when no import cycle can be reached from the artifact's
  \<open>sourceName\<close> and every source name that can be reached is a key of the build's
  \<open>sources\<close>; where a cycle can be reached and the reachable names are keys, it never
  returns; and the conversion with \<open>true\<close> returns a \<open>VerifyInfo\<close>.
\<close>

theorem convertExStateToVerifyInfo_sources:
  assumes read: "readBuildInfo loader (artifactId ex) h = (r, h1)"
  shows "(result ex = Some (SUCCESS_RESULT addr)
        \<and> librariesComplete (loadArtifact loader (artifactId ex)) (exLibraries ex) \<longrightarrow>
        ((\<exists>vi h'. convertExStateToVerifyInfo ext ex loader False h = Some (Inr vi, h')) \<longleftrightarrow>
          (\<forall>t. (sourceName (loadArtifact loader (artifactId ex)), t)
                  \<in> (importEdges ext (objects h1 r))\<^sup>* \<longrightarrow>
               (t, t) \<notin> (importEdges ext (objects h1 r))\<^sup>+
               \<and> map_of (sources (input (objects h1 r))) t \<noteq> None))
        \<and> ((\<exists>t. (sourceName (loadArtifact loader (artifactId ex)), t)
                    \<in> (importEdges ext (objects h1 r))\<^sup>*
                 \<and> (t, t) \<in> (importEdges ext (objects h1 r))\<^sup>+)
            \<and> (\<forall>t. (sourceName (loadArtifact loader (artifactId ex)), t)
                    \<in> (importEdges ext (objects h1 r))\<^sup>* \<longrightarrow>
                   map_of (sources (input (objects h1 r))) t \<noteq> None) \<longrightarrow>
            convertExStateToVerifyInfo ext ex loader False h = None)
        \<and> (\<exists>vi h'. convertExStateToVerifyInfo ext ex loader True h = Some (Inr vi, h')))
    \<and> (\<forall>vi h'. convertExStateToVerifyInfo ext ex loader False h = Some (Inr vi, h') \<longrightarrow>
        (\<exists>closure.
            getImportSourceNames ext (sourceName (loadArtifact loader (artifactId ex)))
              (objects h1 r) = Some (Inr closure)
          \<and> fst ` set (sources (sourceCode vi))
              = insert (sourceName (loadArtifact loader (artifactId ex))) (set closure)
          \<and> sources (sourceCode vi)
              = filter (\<lambda>(source, src).
                    source \<in> insert (sourceName (loadArtifact loader (artifactId ex))) (set closure))
                  (sources (input (objects h1 r))))
        \<and> fst ` set (sources (sourceCode vi))
            = insert (sourceName (loadArtifact loader (artifactId ex)))
                {t. (sourceName (loadArtifact loader (artifactId ex)), t)
                      \<in> (importEdges ext (objects h1 r))\<^sup>+})
    \<and> (\<forall>vi h'. convertExStateToVerifyInfo ext ex loader True h = Some (Inr vi, h') \<longrightarrow>
          sources (sourceCode vi) = sources (input (objects h1 r)))"
proof -
  let ?a = "loadArtifact loader (artifactId ex)"
  let ?sn = "sourceName ?a"
  let ?b = "objects h1 r"
  let ?E = "importEdges ext ?b"
  have total: "((\<exists>vi h'. convertExStateToVerifyInfo ext ex loader False h = Some (Inr vi, h')) \<longleftrightarrow>
          (\<forall>t. (?sn, t) \<in> ?E\<^sup>* \<longrightarrow> (t, t) \<notin> ?E\<^sup>+ \<and> map_of (sources (input ?b)) t \<noteq> None))
        \<and> ((\<exists>t. (?sn, t) \<in> ?E\<^sup>* \<and> (t, t) \<in> ?E\<^sup>+)
            \<and> (\<forall>t. (?sn, t) \<in> ?E\<^sup>* \<longrightarrow> map_of (sources (input ?b)) t \<noteq> None) \<longrightarrow>
            convertExStateToVerifyInfo ext ex loader False h = None)
        \<and> (\<exists>vi h'. convertExStateToVerifyInfo ext ex loader True h = Some (Inr vi, h'))"
    if rl: "result ex = Some (SUCCESS_RESULT addr) \<and> librariesComplete ?a (exLibraries ex)"
  proof -
    from rl have res: "result ex = Some (SUCCESS_RESULT addr)"
      and libs: "librariesComplete ?a (exLibraries ex)"
      by (rule conjunct1, rule conjunct2)
    from prepareInputBasedOn_complete[OF libs, of ?b] obtain b1 where
      prep: "prepareInputBasedOn ?b ?a (exLibraries ex) = Inr (input b1, b1)"
      and s1: "sources (input b1) = sources (input ?b)"
      by (elim exE conjE)
    note pr = convertExStateToVerifyInfo_pruned[OF read res prep, of ext]
    have g1: "getImportSourceNames ext ?sn b1 = getImportSourceNames ext ?sn ?b"
      by (rule getImportSourceNames_sources[OF s1])
    have ret: "(\<exists>vi h'. convertExStateToVerifyInfo ext ex loader False h = Some (Inr vi, h')) \<longleftrightarrow>
        (\<exists>xs. getImportSourceNames ext ?sn ?b = Some (Inr xs))"
      using pr by (simp add: pruneUnrelatedSources_Inr_iff g1)
    have none: "convertExStateToVerifyInfo ext ex loader False h = None \<longleftrightarrow>
        getImportSourceNames ext ?sn ?b = None"
      using pr by (simp add: pruneUnrelatedSources_eq_None g1)
    have 1: "(\<exists>vi h'. convertExStateToVerifyInfo ext ex loader False h = Some (Inr vi, h')) \<longleftrightarrow>
        (\<forall>t. (?sn, t) \<in> ?E\<^sup>* \<longrightarrow> (t, t) \<notin> ?E\<^sup>+ \<and> map_of (sources (input ?b)) t \<noteq> None)"
      unfolding ret by (rule getImportSourceNames_Inr_iff)
    have 2: "(\<exists>t. (?sn, t) \<in> ?E\<^sup>* \<and> (t, t) \<in> ?E\<^sup>+)
            \<and> (\<forall>t. (?sn, t) \<in> ?E\<^sup>* \<longrightarrow> map_of (sources (input ?b)) t \<noteq> None) \<longrightarrow>
            convertExStateToVerifyInfo ext ex loader False h = None"
    proof
      assume c: "(\<exists>t. (?sn, t) \<in> ?E\<^sup>* \<and> (t, t) \<in> ?E\<^sup>+)
          \<and> (\<forall>t. (?sn, t) \<in> ?E\<^sup>* \<longrightarrow> map_of (sources (input ?b)) t \<noteq> None)"
      then obtain t where t: "(?sn, t) \<in> ?E\<^sup>*" "(t, t) \<in> ?E\<^sup>+" by (elim conjE exE)
      from c have p: "\<forall>u. (?sn, u) \<in> ?E\<^sup>* \<longrightarrow> map_of (sources (input ?b)) u \<noteq> None"
        by (rule conjunct2)
      from t p have "getImportSourceNames ext ?sn ?b = None"
        by (rule getImportSourceNames_cycle_None)
      then show "convertExStateToVerifyInfo ext ex loader False h = None"
        by (simp add: none)
    qed
    from convertExStateToVerifyInfo_included[OF read res prep, of ext]
    have 3: "\<exists>vi h'. convertExStateToVerifyInfo ext ex loader True h = Some (Inr vi, h')"
      by (elim exE conjE) (intro exI)
    from 1 2 3 show ?thesis by (intro conjI)
  qed
  have pruned: "(\<exists>closure.
            getImportSourceNames ext ?sn ?b = Some (Inr closure)
          \<and> fst ` set (sources (sourceCode vi)) = insert ?sn (set closure)
          \<and> sources (sourceCode vi)
              = filter (\<lambda>(source, src). source \<in> insert ?sn (set closure)) (sources (input ?b)))
        \<and> fst ` set (sources (sourceCode vi)) = insert ?sn {t. (?sn, t) \<in> ?E\<^sup>+}"
    if conv: "convertExStateToVerifyInfo ext ex loader False h = Some (Inr vi, h')" for vi h'
  proof -
    have nf: "\<not> False" by simp
    show ?thesis
      by (rule convertExStateToVerifyInfo_sources_of_result[OF read conv, THEN conjunct1,
            rule_format, OF nf])
  qed
  have included: "sources (sourceCode vi) = sources (input ?b)"
    if conv: "convertExStateToVerifyInfo ext ex loader True h = Some (Inr vi, h')" for vi h'
    by (rule convertExStateToVerifyInfo_sources_of_result[OF read conv, THEN conjunct2,
          rule_format]) simp
  show ?thesis
  proof (intro conjI)
    show "result ex = Some (SUCCESS_RESULT addr) \<and> librariesComplete ?a (exLibraries ex) \<longrightarrow>
        ((\<exists>vi h'. convertExStateToVerifyInfo ext ex loader False h = Some (Inr vi, h')) \<longleftrightarrow>
          (\<forall>t. (?sn, t) \<in> ?E\<^sup>* \<longrightarrow> (t, t) \<notin> ?E\<^sup>+ \<and> map_of (sources (input ?b)) t \<noteq> None))
        \<and> ((\<exists>t. (?sn, t) \<in> ?E\<^sup>* \<and> (t, t) \<in> ?E\<^sup>+)
            \<and> (\<forall>t. (?sn, t) \<in> ?E\<^sup>* \<longrightarrow> map_of (sources (input ?b)) t \<noteq> None) \<longrightarrow>
            convertExStateToVerifyInfo ext ex loader False h = None)
        \<and> (\<exists>vi h'. convertExStateToVerifyInfo ext ex loader True h = Some (Inr vi, h'))"
      using total by (rule impI)
    show "\<forall>vi h'. convertExStateToVerifyInfo ext ex loader False h = Some (Inr vi, h') \<longrightarrow>
        (\<exists>closure.
            getImportSourceNames ext ?sn ?b = Some (Inr closure)
          \<and> fst ` set (sources (sourceCode vi)) = insert ?sn (set closure)
          \<and> sources (sourceCode vi)
              = filter (\<lambda>(source, src). source \<in> insert ?sn (set closure)) (sources (input ?b)))
        \<and> fst ` set (sources (sourceCode vi)) = insert ?sn {t. (?sn, t) \<in> ?E\<^sup>+}"
      using pruned by (intro allI impI)
    show "\<forall>vi h'. convertExStateToVerifyInfo ext ex loader True h = Some (Inr vi, h') \<longrightarrow>
          sources (sourceCode vi) = sources (input ?b)"
      using included by (intro allI impI)
  qed
qed

theorem convertExStateToVerifyInfo_sources_witness:
  "convertExStateToVerifyInfo posixExternals exampleA freshLoader False exampleHeap
     = Some (Inr verifyInfoA, heapFresh)
   \<and> fst ` set (sources (input mixedBuild)) = {''A.sol'', ''B.sol'', ''Unrelated.sol''}
   \<and> fst ` set (sources (sourceCode verifyInfoA)) = {''A.sol'', ''B.sol''}
   \<and> result exampleA = Some (SUCCESS_RESULT ''0x01'')
   \<and> librariesComplete (loadArtifact freshLoader (artifactId exampleA)) (exLibraries exampleA)
   \<and> (\<exists>vi h'. convertExStateToVerifyInfo posixExternals exampleA freshLoader True exampleHeap
          = Some (Inr vi, h')
        \<and> map fst (sources (sourceCode vi)) = [''A.sol'', ''B.sol'', ''Unrelated.sol''])"
proof -
  have read: "readBuildInfo freshLoader (artifactId exampleA) exampleHeap
      = (1, exampleHeap\<lparr>objects := (objects exampleHeap)(1 := mixedBuild), allocated := 2\<rparr>)"
    by (simp add: freshLoader_def fileDeploymentLoader_def exampleHeap_def)
  have res: "result exampleA = Some (SUCCESS_RESULT ''0x01'')" by (simp add: exampleA_def)
  have libs: "librariesComplete (loadArtifact freshLoader (artifactId exampleA)) (exLibraries exampleA)"
    by (simp add: librariesComplete_def freshLoader_def fileDeploymentLoader_def exampleArtifact_def)
  have sn: "sourceName (loadArtifact freshLoader (artifactId exampleA)) = ''A.sol''"
    by (simp add: freshLoader_def fileDeploymentLoader_def exampleA_def exampleArtifact_def)
  have ob: "objects (exampleHeap\<lparr>objects := (objects exampleHeap)(1 := mixedBuild), allocated := 2\<rparr>) 1
      = mixedBuild" by simp
  note th = convertExStateToVerifyInfo_sources[OF read, of "''0x01''" posixExternals]
  from th have "\<forall>vi h'. convertExStateToVerifyInfo posixExternals exampleA freshLoader False exampleHeap
          = Some (Inr vi, h') \<longrightarrow>
        (\<exists>closure.
            getImportSourceNames posixExternals ''A.sol'' mixedBuild = Some (Inr closure)
          \<and> fst ` set (sources (sourceCode vi)) = insert ''A.sol'' (set closure)
          \<and> sources (sourceCode vi)
              = filter (\<lambda>(source, src). source \<in> insert ''A.sol'' (set closure))
                  (sources (input mixedBuild)))
        \<and> fst ` set (sources (sourceCode vi))
            = insert ''A.sol'' {t. (''A.sol'', t) \<in> (importEdges posixExternals mixedBuild)\<^sup>+}"
    unfolding sn ob by (elim conjE)
  from this[rule_format, OF convert_A_fresh, THEN conjunct1]
  obtain closure where
    g: "getImportSourceNames posixExternals ''A.sol'' mixedBuild = Some (Inr closure)"
    and k: "fst ` set (sources (sourceCode verifyInfoA)) = insert ''A.sol'' (set closure)"
    by (elim exE conjE)
  from g mixed_closure_A have "closure = [''B.sol'']" by simp
  with k have 1: "fst ` set (sources (sourceCode verifyInfoA)) = {''A.sol'', ''B.sol''}" by simp
  have 2: "fst ` set (sources (input mixedBuild)) = {''A.sol'', ''B.sol'', ''Unrelated.sol''}"
    by (simp add: mixedBuild_def buildOf_def)
  from th[THEN conjunct1, rule_format, OF conjI[OF res libs]]
  have "\<exists>vi h'. convertExStateToVerifyInfo posixExternals exampleA freshLoader True exampleHeap
      = Some (Inr vi, h')"
    by (elim conjE)
  then obtain vi h' where
    c: "convertExStateToVerifyInfo posixExternals exampleA freshLoader True exampleHeap
      = Some (Inr vi, h')"
    by (elim exE)
  from th[THEN conjunct2, THEN conjunct2, rule_format, OF c]
  have "sources (sourceCode vi) = sources (input mixedBuild)" unfolding ob .
  then have "map fst (sources (sourceCode vi)) = [''A.sol'', ''B.sol'', ''Unrelated.sol'']"
    by (simp add: mixedBuild_def buildOf_def)
  with c have 3: "\<exists>vi h'. convertExStateToVerifyInfo posixExternals exampleA freshLoader True
        exampleHeap = Some (Inr vi, h')
      \<and> map fst (sources (sourceCode vi)) = [''A.sol'', ''B.sol'', ''Unrelated.sol'']"
    by (intro exI conjI)
  from convert_A_fresh 2 1 res libs 3 show ?thesis by (intro conjI)
qed

subsection \<open>Records that share a build info\<close>

lemma convertExStateToVerifyInfo_result_cong:
  assumes "readBuildInfo loader (artifactId ex) h = (r, h1)"
    and "readBuildInfo loader (artifactId ex) h0 = (r0, h10)"
    and "objects h1 r = objects h10 r0"
  shows "map_option fst (convertExStateToVerifyInfo ext ex loader incl h)
     = map_option fst (convertExStateToVerifyInfo ext ex loader incl h0)"
proof (cases "result ex")
  case None
  with assms show ?thesis by (simp add: convertExStateToVerifyInfo_def Let_def)
next
  case (Some res)
  show ?thesis
  proof (cases res)
    case (OTHER_RESULT k)
    with Some assms show ?thesis by (simp add: convertExStateToVerifyInfo_def Let_def)
  next
    case (SUCCESS_RESULT addr)
    show ?thesis
    proof (cases "prepareInputBasedOn (objects h10 r0) (loadArtifact loader (artifactId ex))
        (exLibraries ex)")
      case (Inl e)
      with Some SUCCESS_RESULT assms show ?thesis
        by (simp add: convertExStateToVerifyInfo_def Let_def)
    next
      case (Inr p)
      obtain prepared b1 where p: "p = (prepared, b1)" by (cases p)
      show ?thesis
      proof (cases incl)
        case True
        with Inr p Some SUCCESS_RESULT assms show ?thesis
          by (simp add: convertExStateToVerifyInfo_def Let_def)
      next
        case False
        show ?thesis
        proof (cases "pruneUnrelatedSources ext (loadArtifact loader (artifactId ex)) b1")
          case None
          with False Inr p Some SUCCESS_RESULT assms show ?thesis
            by (simp add: convertExStateToVerifyInfo_def Let_def)
        next
          case (Some y)
          with False Inr p \<open>result ex = Some res\<close> SUCCESS_RESULT assms show ?thesis
            by (cases y) (simp_all add: convertExStateToVerifyInfo_def Let_def)
        qed
      qed
    qed
  qed
qed

lemma readBuildInfo_fileDeploymentLoader:
  "readBuildInfo (fileDeploymentLoader files arts) aid h
     = (allocated h, h\<lparr>objects := (objects h)(allocated h := files aid),
          allocated := Suc (allocated h)\<rparr>)"
  by (simp add: fileDeploymentLoader_def)

lemma convertExStateToVerifyInfo_store_independent:
  "map_option fst (convertExStateToVerifyInfo ext ex (fileDeploymentLoader files arts) incl h)
     = map_option fst (convertExStateToVerifyInfo ext ex (fileDeploymentLoader files arts) incl h0)"
  by (rule convertExStateToVerifyInfo_result_cong[OF readBuildInfo_fileDeploymentLoader
        readBuildInfo_fileDeploymentLoader]) simp

lemma yieldVerifyResults_store_independent:
  "yieldVerifyResults ext cfg (fileDeploymentLoader files arts) incl exs h
     = yieldVerifyResults ext cfg (fileDeploymentLoader files arts) incl exs h0"
proof (induction exs arbitrary: h h0)
  case Nil
  show ?case by simp
next
  case (Cons ex exs)
  let ?L = "fileDeploymentLoader files arts"
  note eq = convertExStateToVerifyInfo_store_independent[of ext ex files arts incl h h0]
  show ?case
  proof (cases "convertExStateToVerifyInfo ext ex ?L incl h")
    case None
    with eq have "convertExStateToVerifyInfo ext ex ?L incl h0 = None" by simp
    with None show ?thesis by simp
  next
    case (Some p)
    obtain res h' where p: "p = (res, h')" by (cases p)
    from eq Some p obtain h0' where
      s0: "convertExStateToVerifyInfo ext ex ?L incl h0 = Some (res, h0')"
      by (cases "convertExStateToVerifyInfo ext ex ?L incl h0") auto
    show ?thesis
    proof (cases res)
      case (Inl e)
      with Some p s0 show ?thesis by simp
    next
      case (Inr vi)
      with Some p s0 Cons.IH[of h' h0'] show ?thesis by simp
    qed
  qed
qed


text \<open>
  C3. With the loader of the deployment directory, every record's conversion gets a
  \<open>BuildInfo\<close> object of its own, read anew. So after one record has been processed, with
  its libraries injected and its sources pruned in the object it was given, the next
  record, which may reference the same stored build info, is handed an object that equals
  the stored build info, every object that was in the store before is as it was, and the
  conversion of the next record and the rest of the run give what they give without the
  first record having been processed.
\<close>

theorem convertExStateToVerifyInfo_isolated:
  assumes "convertExStateToVerifyInfo ext ex1 (fileDeploymentLoader files arts) incl1 h
      = Some (res1, h')"
  shows "fst (readBuildInfo (fileDeploymentLoader files arts) (artifactId ex2) h') = allocated h'
    \<and> objects (snd (readBuildInfo (fileDeploymentLoader files arts) (artifactId ex2) h'))
         (allocated h') = files (artifactId ex2)
    \<and> (\<forall>r. r \<noteq> allocated h \<longrightarrow> objects h' r = objects h r)
    \<and> map_option fst (convertExStateToVerifyInfo ext ex2 (fileDeploymentLoader files arts) incl2 h')
        = map_option fst (convertExStateToVerifyInfo ext ex2 (fileDeploymentLoader files arts) incl2 h)
    \<and> yieldVerifyResults ext cfg (fileDeploymentLoader files arts) incl2 exs h'
        = yieldVerifyResults ext cfg (fileDeploymentLoader files arts) incl2 exs h"
proof (intro conjI allI impI)
  show "fst (readBuildInfo (fileDeploymentLoader files arts) (artifactId ex2) h') = allocated h'"
    by (simp add: readBuildInfo_fileDeploymentLoader)
  show "objects (snd (readBuildInfo (fileDeploymentLoader files arts) (artifactId ex2) h'))
         (allocated h') = files (artifactId ex2)"
    by (simp add: readBuildInfo_fileDeploymentLoader)
  show "objects h' r = objects h r" if "r \<noteq> allocated h" for r
  proof -
    from convertExStateToVerifyInfo_frame[OF readBuildInfo_fileDeploymentLoader assms]
    have "\<forall>r'. r' \<noteq> allocated h \<longrightarrow> objects h' r'
        = objects (h\<lparr>objects := (objects h)(allocated h := files (artifactId ex1)),
            allocated := Suc (allocated h)\<rparr>) r'"
      by (elim conjE)
    with that show ?thesis by simp
  qed
  show "map_option fst (convertExStateToVerifyInfo ext ex2 (fileDeploymentLoader files arts) incl2 h')
        = map_option fst (convertExStateToVerifyInfo ext ex2 (fileDeploymentLoader files arts) incl2 h)"
    by (rule convertExStateToVerifyInfo_store_independent)
  show "yieldVerifyResults ext cfg (fileDeploymentLoader files arts) incl2 exs h'
        = yieldVerifyResults ext cfg (fileDeploymentLoader files arts) incl2 exs h"
    by (rule yieldVerifyResults_store_independent)
qed

theorem convertExStateToVerifyInfo_isolated_witness:
  "convertExStateToVerifyInfo posixExternals exampleA freshLoader False exampleHeap
     = Some (Inr verifyInfoA, heapFresh)
   \<and> map fst (sources (input (objects heapFresh 1))) = [''A.sol'', ''B.sol'']
   \<and> objects (snd (readBuildInfo freshLoader (artifactId exampleU) heapFresh)) 2 = mixedBuild
   \<and> map_option fst
       (convertExStateToVerifyInfo posixExternals exampleU freshLoader False heapFresh)
       = Some (Inr verifyInfoU)
   \<and> map_option fst
       (convertExStateToVerifyInfo posixExternals exampleU freshLoader False exampleHeap)
       = Some (Inr verifyInfoU)
   \<and> map fst (sources (sourceCode verifyInfoU)) = [''Unrelated.sol'']"
proof -
  note th = convertExStateToVerifyInfo_isolated[OF convert_A_fresh[unfolded freshLoader_def],
      of exampleU False "hd exampleChains" "[]", folded freshLoader_def]
  from th have "objects (snd (readBuildInfo freshLoader (artifactId exampleU) heapFresh))
         (allocated heapFresh) = mixedBuild"
    by (rule conjunct2[THEN conjunct1])
  then have 1: "objects (snd (readBuildInfo freshLoader (artifactId exampleU) heapFresh)) 2
      = mixedBuild"
    by (simp add: heapFresh_def)
  from th have eq: "map_option fst
       (convertExStateToVerifyInfo posixExternals exampleU freshLoader False heapFresh)
     = map_option fst
       (convertExStateToVerifyInfo posixExternals exampleU freshLoader False exampleHeap)"
    by (rule conjunct2[THEN conjunct2, THEN conjunct2, THEN conjunct1])
  have 2: "map_option fst
       (convertExStateToVerifyInfo posixExternals exampleU freshLoader False heapFresh)
       = Some (Inr verifyInfoU)"
    by (simp add: convert_U_fresh)
  with eq have 3: "map_option fst
       (convertExStateToVerifyInfo posixExternals exampleU freshLoader False exampleHeap)
       = Some (Inr verifyInfoU)" by simp
  have 4: "map fst (sources (input (objects heapFresh 1))) = [''A.sol'', ''B.sol'']"
    by (simp add: heapFresh_def prunedA_def buildOf_def)
  have 5: "map fst (sources (sourceCode verifyInfoU)) = [''Unrelated.sol'']"
    by (simp add: verifyInfoU_def prunedU_def buildOf_def)
  from convert_A_fresh 4 1 2 3 5 show ?thesis by (intro conjI)
qed

section \<open>The pipeline: errors, count and order of the results\<close>

lemma set_findExecutionStatesByType:
  "set (findExecutionStatesByType xs) = {ex. DEPLOYMENT_EXECUTION_STATE ex \<in> set xs}"
  by (induction xs rule: findExecutionStatesByType.induct) auto

text \<open>
  C8, as stated, fails: the chain configuration is resolved before the records are
  selected, so a deployment state without successful records whose chain id is in neither
  list fails with the error for the unsupported chain.
\<close>

theorem getVerificationInformation_unsupported_counterexample:
  "getVerificationInformation unsupportedExternals ''deployments/chain-31337'' [] False exampleHeap
     = ([], Thrown (UNSUPPORTED_CHAIN 31337))"
  by (simp add: getVerificationInformation_def unsupportedExternals_def posixExternals_def
        resolveChainConfig_def exampleChains_def)

text \<open>
  C8, amended. For a deployment state that loads and has no deployment-execution record
  with status \<open>SUCCESS\<close>: when its chain id resolves to a chain configuration, the pipeline
  yields nothing and fails with \<open>NO_CONTRACTS_DEPLOYED\<close>; when it does not, the pipeline
  yields nothing and fails with the error of \<open>resolveChainConfig\<close>.
\<close>

theorem getVerificationInformation_no_contracts:
  assumes "loadDeploymentState ext (newFileDeploymentLoader ext deploymentDir) = Some st"
    and "\<forall>ex. DEPLOYMENT_EXECUTION_STATE ex \<in> set (executionStates st) \<longrightarrow> status ex \<noteq> SUCCESS"
  shows "(\<forall>chainConfig. resolveChainConfig ext st customChains = Inr chainConfig \<longrightarrow>
        getVerificationInformation ext deploymentDir customChains incl h
          = ([], Thrown (NO_CONTRACTS_DEPLOYED deploymentDir)))
    \<and> (\<forall>e. resolveChainConfig ext st customChains = Inl e \<longrightarrow>
        getVerificationInformation ext deploymentDir customChains incl h = ([], Thrown e))"
proof -
  have "filter (\<lambda>exState. status exState = SUCCESS)
          (findExecutionStatesByType (executionStates st)) = []"
    using assms(2) by (auto simp: filter_empty_conv set_findExecutionStatesByType)
  with assms(1) show ?thesis
    by (simp add: getVerificationInformation_def Let_def)
qed

theorem getVerificationInformation_no_contracts_witness:
  "resolveChainConfig emptyMainnet
      \<lparr>stateChainId = 1,
        executionStates = [OTHER_EXECUTION_STATE ''Mod#call'' SUCCESS,
          DEPLOYMENT_EXECUTION_STATE (exampleA\<lparr>status := FAILED, result := None\<rparr>)]\<rparr> []
     = Inr \<lparr>chainId = 1, chainName = ''mainnet'', endpoint = ''https://api.etherscan.io/api''\<rparr>
   \<and> getVerificationInformation emptyMainnet ''deployments/chain-1'' [] False exampleHeap
     = ([], Thrown (NO_CONTRACTS_DEPLOYED ''deployments/chain-1''))"
proof -
  let ?st = "\<lparr>stateChainId = 1,
        executionStates = [OTHER_EXECUTION_STATE ''Mod#call'' SUCCESS,
          DEPLOYMENT_EXECUTION_STATE (exampleA\<lparr>status := FAILED, result := None\<rparr>)]\<rparr>"
  have 1: "loadDeploymentState emptyMainnet (newFileDeploymentLoader emptyMainnet ''deployments/chain-1'')
      = Some ?st"
    by (simp add: emptyMainnet_def)
  have 2: "\<forall>ex. DEPLOYMENT_EXECUTION_STATE ex \<in> set (executionStates ?st) \<longrightarrow> status ex \<noteq> SUCCESS"
    by simp
  have 3: "resolveChainConfig emptyMainnet ?st []
     = Inr \<lparr>chainId = 1, chainName = ''mainnet'', endpoint = ''https://api.etherscan.io/api''\<rparr>"
    by (simp add: resolveChainConfig_def emptyMainnet_def posixExternals_def exampleChains_def)
  from getVerificationInformation_no_contracts[OF 1 2, THEN conjunct1, rule_format, OF 3]
  have "getVerificationInformation emptyMainnet ''deployments/chain-1'' [] False exampleHeap
     = ([], Thrown (NO_CONTRACTS_DEPLOYED ''deployments/chain-1''))" .
  with 3 show ?thesis ..
qed

lemma findExecutionStatesByType_filter:
  "map DEPLOYMENT_EXECUTION_STATE (filter P (findExecutionStatesByType xs))
     = filter (\<lambda>s. case s of DEPLOYMENT_EXECUTION_STATE ex \<Rightarrow> P ex
                 | OTHER_EXECUTION_STATE kind st \<Rightarrow> False) xs"
  by (induction xs rule: findExecutionStatesByType.induct) auto

lemma yieldVerifyResults_trace:
  "yieldVerifyResults ext cfg loader incl exs h = (ys, fin) \<Longrightarrow>
   \<exists>hs. length hs = Suc (length ys) \<and> hs ! 0 = h \<and> length ys \<le> length exs
     \<and> (\<forall>i<length ys. fst (ys ! i) = cfg
           \<and> convertExStateToVerifyInfo ext (exs ! i) loader incl (hs ! i)
               = Some (Inr (snd (ys ! i)), hs ! Suc i))
     \<and> (fin = Returned \<longleftrightarrow> length ys = length exs)
     \<and> (\<forall>e. fin = Thrown e \<longrightarrow>
           (\<exists>h'. convertExStateToVerifyInfo ext (exs ! length ys) loader incl (hs ! length ys)
                   = Some (Inl e, h')))
     \<and> (fin = NeverReturns \<longrightarrow>
           convertExStateToVerifyInfo ext (exs ! length ys) loader incl (hs ! length ys) = None)"
proof (induction exs arbitrary: h ys fin)
  case Nil
  then show ?case by (intro exI[of _ "[h]"]) auto
next
  case (Cons ex exs)
  show ?case
  proof (cases "convertExStateToVerifyInfo ext ex loader incl h")
    case None
    with Cons.prems have "ys = []" "fin = NeverReturns" by simp_all
    with None show ?thesis by (intro exI[of _ "[h]"]) simp
  next
    case (Some p)
    obtain res h' where p: "p = (res, h')" by (cases p)
    show ?thesis
    proof (cases res)
      case (Inl e)
      with Some p Cons.prems have "ys = []" "fin = Thrown e" by simp_all
      with Some p Inl show ?thesis by (intro exI[of _ "[h]"]) simp
    next
      case (Inr vi)
      obtain ys' fin' where rest: "yieldVerifyResults ext cfg loader incl exs h' = (ys', fin')"
        by (cases "yieldVerifyResults ext cfg loader incl exs h'")
      with Some p Inr Cons.prems have ys: "ys = (cfg, vi) # ys'" and fin: "fin = fin'"
        by simp_all
      from Cons.IH[OF rest] obtain hs where
        hs: "length hs = Suc (length ys')" "hs ! 0 = h'" "length ys' \<le> length exs"
        and each: "\<forall>i<length ys'. fst (ys' ! i) = cfg
           \<and> convertExStateToVerifyInfo ext (exs ! i) loader incl (hs ! i)
               = Some (Inr (snd (ys' ! i)), hs ! Suc i)"
        and ret: "fin' = Returned \<longleftrightarrow> length ys' = length exs"
        and thr: "\<forall>e. fin' = Thrown e \<longrightarrow>
           (\<exists>h'. convertExStateToVerifyInfo ext (exs ! length ys') loader incl (hs ! length ys')
                   = Some (Inl e, h'))"
        and nev: "fin' = NeverReturns \<longrightarrow>
           convertExStateToVerifyInfo ext (exs ! length ys') loader incl (hs ! length ys') = None"
        by (elim exE conjE)
      have step: "fst (ys ! i) = cfg
           \<and> convertExStateToVerifyInfo ext ((ex # exs) ! i) loader incl ((h # hs) ! i)
               = Some (Inr (snd (ys ! i)), (h # hs) ! Suc i)" if "i < length ys" for i
      proof (cases i)
        case 0
        with Some p Inr ys hs(2) show ?thesis by simp
      next
        case (Suc j)
        with that ys have "j < length ys'" by simp
        with each Suc ys show ?thesis by simp
      qed
      show ?thesis
      proof (intro exI[of _ "h # hs"] conjI allI impI)
        show "length (h # hs) = Suc (length ys)" using hs(1) ys by simp
        show "(h # hs) ! 0 = h" by simp
        show "length ys \<le> length (ex # exs)" using hs(3) ys by simp
        show "fin = Returned \<longleftrightarrow> length ys = length (ex # exs)" using ret ys fin by simp
        show "\<exists>h'. convertExStateToVerifyInfo ext ((ex # exs) ! length ys) loader incl
                  ((h # hs) ! length ys) = Some (Inl e, h')" if "fin = Thrown e" for e
          using thr that fin ys by simp
        show "convertExStateToVerifyInfo ext ((ex # exs) ! length ys) loader incl
                  ((h # hs) ! length ys) = None" if "fin = NeverReturns"
          using nev that fin ys by simp
      qed (use step in blast)+
    qed
  qed
qed

text \<open>
  C9, as stated, fails: a deployment state with a successful deployment record whose
  chain id is in neither list yields nothing.
\<close>

theorem getVerificationInformation_order_counterexample:
  "filter (\<lambda>exState. status exState = SUCCESS)
      (findExecutionStatesByType [DEPLOYMENT_EXECUTION_STATE exampleA]) = [exampleA]
   \<and> getVerificationInformation unsupportedWithRecord ''deployments/chain-31337'' [] False exampleHeap
     = ([], Thrown (UNSUPPORTED_CHAIN 31337))"
  by (simp add: getVerificationInformation_def unsupportedWithRecord_def posixExternals_def
        resolveChainConfig_def exampleChains_def exampleA_def)

text \<open>
  C9, amended. For a deployment state that loads and has at least one successful
  deployment-execution record. When its chain id resolves, the pipeline yields the results
  of the successful deployment records in the order in which they appear in the deployment
  state, each paired with the chain configuration and each the conversion of its record
  in the store the conversions before it left. It yields one result for every such record
  exactly when the run returns; otherwise the elements yielded are those of the records
  before the first one whose conversion throws or never returns. When its chain id does
  not resolve, the pipeline yields nothing and fails with the error of
  \<open>resolveChainConfig\<close>.
\<close>

theorem getVerificationInformation_order:
  assumes load: "loadDeploymentState ext (newFileDeploymentLoader ext deploymentDir) = Some st"
    and some: "\<exists>ex. DEPLOYMENT_EXECUTION_STATE ex \<in> set (executionStates st) \<and> status ex = SUCCESS"
  shows "(\<forall>chainConfig ys fin.
        resolveChainConfig ext st customChains = Inr chainConfig
        \<and> getVerificationInformation ext deploymentDir customChains incl h = (ys, fin) \<longrightarrow>
        (\<exists>records hs.
            map DEPLOYMENT_EXECUTION_STATE records
              = filter (\<lambda>s. case s of DEPLOYMENT_EXECUTION_STATE ex \<Rightarrow> status ex = SUCCESS
                           | OTHER_EXECUTION_STATE kind st \<Rightarrow> False) (executionStates st)
          \<and> length hs = Suc (length ys) \<and> hs ! 0 = h \<and> length ys \<le> length records
          \<and> (\<forall>i<length ys. fst (ys ! i) = chainConfig
                \<and> convertExStateToVerifyInfo ext (records ! i)
                      (newFileDeploymentLoader ext deploymentDir) incl (hs ! i)
                    = Some (Inr (snd (ys ! i)), hs ! Suc i))
          \<and> (fin = Returned \<longleftrightarrow> length ys = length records)
          \<and> (\<forall>e. fin = Thrown e \<longrightarrow>
                (\<exists>h'. convertExStateToVerifyInfo ext (records ! length ys)
                         (newFileDeploymentLoader ext deploymentDir) incl (hs ! length ys)
                        = Some (Inl e, h')))
          \<and> (fin = NeverReturns \<longrightarrow>
                convertExStateToVerifyInfo ext (records ! length ys)
                  (newFileDeploymentLoader ext deploymentDir) incl (hs ! length ys) = None)))
    \<and> (\<forall>e. resolveChainConfig ext st customChains = Inl e \<longrightarrow>
          getVerificationInformation ext deploymentDir customChains incl h = ([], Thrown e))"
proof (intro conjI allI impI)
  fix e
  assume "resolveChainConfig ext st customChains = Inl e"
  with load show "getVerificationInformation ext deploymentDir customChains incl h
      = ([], Thrown e)"
    by (simp add: getVerificationInformation_def)
next
  fix chainConfig ys fin
  assume "resolveChainConfig ext st customChains = Inr chainConfig
      \<and> getVerificationInformation ext deploymentDir customChains incl h = (ys, fin)"
  then have chain: "resolveChainConfig ext st customChains = Inr chainConfig"
    and run: "getVerificationInformation ext deploymentDir customChains incl h = (ys, fin)"
    by (rule conjunct1, rule conjunct2)
  let ?records = "filter (\<lambda>exState. status exState = SUCCESS)
      (findExecutionStatesByType (executionStates st))"
  from some have "?records \<noteq> []"
    by (auto simp: filter_empty_conv set_findExecutionStatesByType)
  with load chain run have
    "yieldVerifyResults ext chainConfig (newFileDeploymentLoader ext deploymentDir) incl ?records h
       = (ys, fin)"
    by (simp add: getVerificationInformation_def Let_def)
  from yieldVerifyResults_trace[OF this] obtain hs where
    "length hs = Suc (length ys) \<and> hs ! 0 = h \<and> length ys \<le> length ?records
     \<and> (\<forall>i<length ys. fst (ys ! i) = chainConfig
           \<and> convertExStateToVerifyInfo ext (?records ! i) (newFileDeploymentLoader ext deploymentDir)
                incl (hs ! i) = Some (Inr (snd (ys ! i)), hs ! Suc i))
     \<and> (fin = Returned \<longleftrightarrow> length ys = length ?records)
     \<and> (\<forall>e. fin = Thrown e \<longrightarrow>
           (\<exists>h'. convertExStateToVerifyInfo ext (?records ! length ys)
                    (newFileDeploymentLoader ext deploymentDir) incl (hs ! length ys)
                   = Some (Inl e, h')))
     \<and> (fin = NeverReturns \<longrightarrow>
           convertExStateToVerifyInfo ext (?records ! length ys)
             (newFileDeploymentLoader ext deploymentDir) incl (hs ! length ys) = None)"
    by (elim exE)
  moreover have "map DEPLOYMENT_EXECUTION_STATE ?records
        = filter (\<lambda>s. case s of DEPLOYMENT_EXECUTION_STATE ex \<Rightarrow> status ex = SUCCESS
                     | OTHER_EXECUTION_STATE kind st \<Rightarrow> False) (executionStates st)"
    by (rule findExecutionStatesByType_filter)
  ultimately show "\<exists>records hs.
            map DEPLOYMENT_EXECUTION_STATE records
              = filter (\<lambda>s. case s of DEPLOYMENT_EXECUTION_STATE ex \<Rightarrow> status ex = SUCCESS
                           | OTHER_EXECUTION_STATE kind st \<Rightarrow> False) (executionStates st)
          \<and> length hs = Suc (length ys) \<and> hs ! 0 = h \<and> length ys \<le> length records
          \<and> (\<forall>i<length ys. fst (ys ! i) = chainConfig
                \<and> convertExStateToVerifyInfo ext (records ! i)
                      (newFileDeploymentLoader ext deploymentDir) incl (hs ! i)
                    = Some (Inr (snd (ys ! i)), hs ! Suc i))
          \<and> (fin = Returned \<longleftrightarrow> length ys = length records)
          \<and> (\<forall>e. fin = Thrown e \<longrightarrow>
                (\<exists>h'. convertExStateToVerifyInfo ext (records ! length ys)
                         (newFileDeploymentLoader ext deploymentDir) incl (hs ! length ys)
                        = Some (Inl e, h')))
          \<and> (fin = NeverReturns \<longrightarrow>
                convertExStateToVerifyInfo ext (records ! length ys)
                  (newFileDeploymentLoader ext deploymentDir) incl (hs ! length ys) = None)"
    by (intro exI[of _ ?records] exI[of _ hs] conjI) simp_all
qed

lemma example_records:
  "filter (\<lambda>exState. status exState = SUCCESS)
      (findExecutionStatesByType (executionStates exampleState)) = [exampleA, exampleU]"
  by (simp add: exampleState_def exampleA_def exampleU_def)

lemma example_chain:
  "resolveChainConfig posixExternals exampleState []
     = Inr \<lparr>chainId = 1, chainName = ''mainnet'', endpoint = ''https://api.etherscan.io/api''\<rparr>"
  by (simp add: resolveChainConfig_def posixExternals_def exampleChains_def exampleState_def)

lemma example_run:
  "getVerificationInformation posixExternals ''deployments/chain-1'' [] False exampleHeap
     = ([(\<lparr>chainId = 1, chainName = ''mainnet'', endpoint = ''https://api.etherscan.io/api''\<rparr>,
          verifyInfoA),
         (\<lparr>chainId = 1, chainName = ''mainnet'', endpoint = ''https://api.etherscan.io/api''\<rparr>,
          verifyInfoU)], Returned)"
proof -
  have l: "newFileDeploymentLoader posixExternals ''deployments/chain-1'' = freshLoader"
    and s: "loadDeploymentState posixExternals freshLoader = Some exampleState"
    by (simp_all add: posixExternals_def)
  show ?thesis
    by (simp add: getVerificationInformation_def l s example_chain example_records
          convert_A_fresh convert_U_fresh)
qed

theorem getVerificationInformation_order_witness:
  "getVerificationInformation posixExternals ''deployments/chain-1'' [] False exampleHeap
     = ([(\<lparr>chainId = 1, chainName = ''mainnet'', endpoint = ''https://api.etherscan.io/api''\<rparr>,
          verifyInfoA),
         (\<lparr>chainId = 1, chainName = ''mainnet'', endpoint = ''https://api.etherscan.io/api''\<rparr>,
          verifyInfoU)], Returned)
   \<and> (\<exists>records.
        map DEPLOYMENT_EXECUTION_STATE records
          = [DEPLOYMENT_EXECUTION_STATE exampleA, DEPLOYMENT_EXECUTION_STATE exampleU]
      \<and> length records = 2)
   \<and> resolveChainConfig unsupportedWithRecord
        \<lparr>stateChainId = 31337, executionStates = [DEPLOYMENT_EXECUTION_STATE exampleA]\<rparr> []
       = Inl (UNSUPPORTED_CHAIN 31337)
   \<and> getVerificationInformation unsupportedWithRecord ''deployments/chain-31337'' [] False
        exampleHeap = ([], Thrown (UNSUPPORTED_CHAIN 31337))"
proof -
  have load: "loadDeploymentState posixExternals
      (newFileDeploymentLoader posixExternals ''deployments/chain-1'') = Some exampleState"
    by (simp add: posixExternals_def)
  have some: "\<exists>ex. DEPLOYMENT_EXECUTION_STATE ex \<in> set (executionStates exampleState)
      \<and> status ex = SUCCESS"
    by (rule exI[of _ exampleA]) (simp add: exampleState_def exampleA_def)
  from getVerificationInformation_order[OF load some, THEN conjunct1, rule_format,
      OF conjI[OF example_chain example_run]]
  obtain records where
    r: "map DEPLOYMENT_EXECUTION_STATE records
        = filter (\<lambda>s. case s of DEPLOYMENT_EXECUTION_STATE ex \<Rightarrow> status ex = SUCCESS
                     | OTHER_EXECUTION_STATE kind st \<Rightarrow> False) (executionStates exampleState)"
    and n: "Returned = Returned \<longleftrightarrow>
        length [(\<lparr>chainId = 1, chainName = ''mainnet'', endpoint = ''https://api.etherscan.io/api''\<rparr>,
          verifyInfoA),
         (\<lparr>chainId = 1, chainName = ''mainnet'', endpoint = ''https://api.etherscan.io/api''\<rparr>,
          verifyInfoU)] = length records"
    by (elim exE conjE)
  from r have "map DEPLOYMENT_EXECUTION_STATE records
      = [DEPLOYMENT_EXECUTION_STATE exampleA, DEPLOYMENT_EXECUTION_STATE exampleU]"
    by (simp add: exampleState_def exampleA_def exampleU_def)
  moreover from n have "length records = 2" by simp
  ultimately have 1: "\<exists>records.
        map DEPLOYMENT_EXECUTION_STATE records
          = [DEPLOYMENT_EXECUTION_STATE exampleA, DEPLOYMENT_EXECUTION_STATE exampleU]
      \<and> length records = 2"
    by (intro conjI exI[of _ records])
  let ?st = "\<lparr>stateChainId = 31337, executionStates = [DEPLOYMENT_EXECUTION_STATE exampleA]\<rparr>"
  have load2: "loadDeploymentState unsupportedWithRecord
      (newFileDeploymentLoader unsupportedWithRecord ''deployments/chain-31337'') = Some ?st"
    by (simp add: unsupportedWithRecord_def)
  have some2: "\<exists>ex. DEPLOYMENT_EXECUTION_STATE ex \<in> set (executionStates ?st)
      \<and> status ex = SUCCESS"
    by (rule exI[of _ exampleA]) (simp add: exampleA_def)
  have chain2: "resolveChainConfig unsupportedWithRecord ?st [] = Inl (UNSUPPORTED_CHAIN 31337)"
    by (simp add: resolveChainConfig_def unsupportedWithRecord_def posixExternals_def
          exampleChains_def)
  from getVerificationInformation_order[OF load2 some2, THEN conjunct2, rule_format, OF chain2]
  have 2: "getVerificationInformation unsupportedWithRecord ''deployments/chain-31337'' [] False
        exampleHeap = ([], Thrown (UNSUPPORTED_CHAIN 31337))" .
  from example_run 1 chain2 2 show ?thesis by (intro conjI)
qed

end
